theory Spec2Isabelle
  imports Main "HOL-Library.Word"
begin

unbundle bit_operations_syntax

section \<open>Conventions of the embedding\<close>

text \<open>
  The program is the single file \<^verbatim>\<open>kilo.c\<close>. Its functions are embedded one by one,
  under their own names.

  \<^item> A C \<^verbatim>\<open>int\<close> has 32 bits. Its values are kept in the type \<^typ>\<open>int\<close>, and every sum,
    difference and product that the program computes in \<^verbatim>\<open>int\<close> is reduced to the range
    of \<^verbatim>\<open>int\<close> by \<open>int32\<close>: on overflow the compiled program wraps around modulo
    \<open>2 ^ 32\<close> (the C standard leaves signed overflow undefined). The two loop counters
    that are incremented below a bound of type \<^verbatim>\<open>int\<close> cannot overflow and are not
    reduced. A \<^verbatim>\<open>time_t\<close> has 64 bits and is a plain \<^typ>\<open>int\<close>. An \<^verbatim>\<open>unsigned short\<close> is
    a word of 16 bits.
  \<^item> A buffer together with its length (\<^verbatim>\<open>char *\<close> and \<^verbatim>\<open>int\<close>) is the list of its bytes;
    a line of the file and the status message are taken to be shorter than \<open>2 ^ 31\<close>
    bytes. Allocation (\<^verbatim>\<open>malloc\<close>, \<^verbatim>\<open>realloc\<close>, \<^verbatim>\<open>strdup\<close>) of a size that is
    computed without overflow is taken to succeed.
  \<^item> \<^verbatim>\<open>die\<close> ends the process. A function that can reach \<^verbatim>\<open>die\<close> returns a sum whose
    left injection carries the diagnostic; the effects of \<^verbatim>\<open>die\<close> on the process
    (clear screen, diagnostic, exit status 1, the exit functions) are those of \<open>die\<close>
    below, which \<open>startup\<close> and \<open>mainLoop\<close> apply. What the failing function had
    changed in memory before is lost with the process and is not kept.
  \<^item> Where C leaves the behaviour undefined (a negative byte count, an array of no
    positive size, an index outside an array) the model returns \<open>Undefined\<close>.
\<close>

datatype fatal = Die string | Undefined

subsection \<open>Utility functions\<close>

text \<open>\<^verbatim>\<open>int min(int a, int b)\<close> and \<^verbatim>\<open>int max(int a, int b)\<close>.\<close>

definition min_int :: "int \<Rightarrow> int \<Rightarrow> int" where
  "min_int a b = (if a < b then a else b)"

definition max_int :: "int \<Rightarrow> int \<Rightarrow> int" where
  "max_int a b = (if a > b then a else b)"

text \<open>
  The range of a 32-bit \<^verbatim>\<open>int\<close>, from \<open>- 2 ^ 31\<close> to \<open>2 ^ 31 - 1\<close>, and the value that
  a result of \<^verbatim>\<open>int\<close> arithmetic has in it: the one that differs from the exact result
  by a multiple of \<open>2 ^ 32\<close>.
\<close>

definition intRange :: "int \<Rightarrow> bool" where
  "intRange x \<longleftrightarrow> - 2147483648 \<le> x \<and> x \<le> 2147483647"

definition int32 :: "int \<Rightarrow> int" where
  "int32 x = (x + 2147483648) mod 4294967296 - 2147483648"

text \<open>\<^verbatim>\<open>#define CONTROL(key) ((key) & 0x1f)\<close>\<close>

definition CONTROL :: "int \<Rightarrow> int" where
  "CONTROL key = key AND 0x1f"

text \<open>The value of a \<^verbatim>\<open>char\<close> converted to \<^verbatim>\<open>int\<close>, \<^verbatim>\<open>char\<close> being signed.\<close>

definition int_of_char :: "char \<Rightarrow> int" where
  "int_of_char c = (if (of_char c :: int) < 128 then of_char c else of_char c - 256)"

definition ESC :: string where
  "ESC = [CHR 0x1B]"

section \<open>Back buffer\<close>

text \<open>
  \<^verbatim>\<open>struct BackBuffer { char *data; int length; int capacity; }\<close>. The field \<open>data\<close>
  of the model holds the bytes \<^verbatim>\<open>data[0 .. length)\<close>, so that \<^verbatim>\<open>length\<close> is the length of
  that list; the rest of the allocated area is never read.
\<close>

record BackBuffer =
  data :: string
  capacity :: int

definition bufferLength :: "BackBuffer \<Rightarrow> int" where
  "bufferLength bb = int (length (data bb))"

definition backBufferClear :: "BackBuffer \<Rightarrow> BackBuffer" where
  "backBufferClear bb = bb\<lparr>data := []\<rparr>"

text \<open>
  \<^verbatim>\<open>backBufferAppend(data, length)\<close>: the guard, then \<^verbatim>\<open>memcpy\<close> of the first \<open>n\<close> bytes
  of the source. A negative \<open>n\<close>, or one beyond the source, has no defined behaviour;
  nor has a copy that ends beyond the \<open>capacity\<close> bytes allocated, which the guard
  lets through only if its sum has wrapped around.
\<close>

definition backBufferAppend :: "string \<Rightarrow> int \<Rightarrow> BackBuffer \<Rightarrow> fatal + BackBuffer" where
  "backBufferAppend bytes n bb =
     (if int32 (bufferLength bb + n) \<ge> capacity bb then Inl (Die ''back buffer capacity exceeded'')
      else if n < 0 \<or> int (length bytes) < n \<or> capacity bb < bufferLength bb + n then Inl Undefined
      else Inr (bb\<lparr>data := data bb @ take (nat n) bytes\<rparr>))"

section \<open>Input decoder\<close>

text \<open>\<^verbatim>\<open>enum Key\<close>\<close>

definition ESCAPE :: int where "ESCAPE = 0x1b"
definition ARROW_LEFT :: int where "ARROW_LEFT = 0x400"
definition ARROW_RIGHT :: int where "ARROW_RIGHT = 0x401"
definition ARROW_UP :: int where "ARROW_UP = 0x402"
definition ARROW_DOWN :: int where "ARROW_DOWN = 0x403"
definition PAGE_UP :: int where "PAGE_UP = 0x404"
definition PAGE_DOWN :: int where "PAGE_DOWN = 0x405"
definition HOME :: int where "HOME = 0x406"
definition END :: int where "END = 0x407"
definition DELETE :: int where "DELETE = 0x408"

lemmas Key_defs =
  ESCAPE_def ARROW_LEFT_def ARROW_RIGHT_def ARROW_UP_def ARROW_DOWN_def
  PAGE_UP_def PAGE_DOWN_def HOME_def END_def DELETE_def

text \<open>
  Standard input is the list of the results of the successive calls
  \<^verbatim>\<open>read(STDIN_FILENO, &c, 1)\<close>: \<open>Some b\<close> when the call returns 1 and stores \<open>b\<close>,
  \<open>None\<close> when it returns without a byte (the 100 ms timeout of raw mode). After the
  end of the list no byte ever arrives.
\<close>

type_synonym stdin = "char option list"

text \<open>
  \<^verbatim>\<open>while (read(STDIN_FILENO, &c, 1) != 1);\<close> The loop does not end if no byte
  ever arrives: the result is \<open>None\<close>.
\<close>

fun awaitByte :: "stdin \<Rightarrow> (char \<times> stdin) option" where
  "awaitByte [] = None"
| "awaitByte (None # inp) = awaitByte inp"
| "awaitByte (Some c # inp) = Some (c, inp)"

text \<open>
  \<^verbatim>\<open>for (int i = 0; i < 3 && read(STDIN_FILENO, &sequence[i], 1) == 1; i++);\<close>
  The array \<^verbatim>\<open>char sequence[3]\<close> is a function of the index. A read that returns
  no byte stores nothing and ends the loop.
\<close>

function readSequence :: "nat \<Rightarrow> (nat \<Rightarrow> char) \<Rightarrow> stdin \<Rightarrow> (nat \<Rightarrow> char) \<times> stdin" where
  "readSequence i sequence inp =
     (if i < 3 then
        (case inp of
           [] \<Rightarrow> (sequence, [])
         | None # rest \<Rightarrow> (sequence, rest)
         | Some b # rest \<Rightarrow> readSequence (i + 1) (sequence(i := b)) rest)
      else (sequence, inp))"
  by pat_completeness auto
termination
  by (relation "measure (\<lambda>(i, sequence, inp). 3 - i)") auto

declare readSequence.simps [simp del]

text \<open>The two \<^verbatim>\<open>switch\<close> statements on \<^verbatim>\<open>sequence[0]\<close> and \<^verbatim>\<open>sequence[1]\<close>.\<close>

definition decodeSequence :: "(nat \<Rightarrow> char) \<Rightarrow> int" where
  "decodeSequence sequence =
     (if sequence 0 = CHR ''['' then
        (if sequence 1 = CHR ''A'' then ARROW_UP
         else if sequence 1 = CHR ''B'' then ARROW_DOWN
         else if sequence 1 = CHR ''C'' then ARROW_RIGHT
         else if sequence 1 = CHR ''D'' then ARROW_LEFT
         else if sequence 1 = CHR ''F'' then END
         else if sequence 1 = CHR ''H'' then HOME
         else if sequence 1 = CHR ''1'' then HOME
         else if sequence 1 = CHR ''3'' then DELETE
         else if sequence 1 = CHR ''4'' then END
         else if sequence 1 = CHR ''5'' then PAGE_UP
         else if sequence 1 = CHR ''6'' then PAGE_DOWN
         else if sequence 1 = CHR ''7'' then HOME
         else if sequence 1 = CHR ''8'' then END
         else ESCAPE)
      else if sequence 0 = CHR ''O'' then
        (if sequence 1 = CHR ''F'' then END
         else if sequence 1 = CHR ''H'' then HOME
         else ESCAPE)
      else ESCAPE)"

text \<open>
  \<^verbatim>\<open>int readKey()\<close>. The local array \<^verbatim>\<open>sequence\<close> has no initialiser: its contents
  at entry are whatever the stack holds, the argument \<open>stale\<close>. The result is the
  token and the input that is left, or \<open>None\<close> if the first loop never ends.
\<close>

definition readKey :: "(nat \<Rightarrow> char) \<Rightarrow> stdin \<Rightarrow> (int \<times> stdin) option" where
  "readKey stale inp =
     (case awaitByte inp of
        None \<Rightarrow> None
      | Some (c, inp1) \<Rightarrow>
          if int_of_char c = ESCAPE then
            (case readSequence 0 stale inp1 of
               (sequence, inp2) \<Rightarrow> Some (decodeSequence sequence, inp2))
          else Some (int_of_char c, inp1))"

section \<open>Editor state\<close>

text \<open>
  \<^verbatim>\<open>struct EditorState\<close>. A \<^verbatim>\<open>struct Line\<close> is the list of its \<^verbatim>\<open>length\<close> bytes; a
  \<^verbatim>\<open>char *\<close> that may be \<^verbatim>\<open>NULL\<close> is an option.
\<close>

record EditorState =
  rows :: int
  columns :: int
  cx :: int
  cy :: int
  lines :: "string list"
  lineCount :: int
  lineOffset :: int
  filename :: "string option"
  message :: "string option"
  messageTime :: int

text \<open>
  \<^verbatim>\<open>void handleKeyPress()\<close>, given the token \<open>c\<close> that its first statement
  \<^verbatim>\<open>int c = readKey();\<close> obtains. \<open>Quit\<close> is the branch that clears the screen and
  calls \<^verbatim>\<open>exit(0)\<close>.
\<close>

datatype KeyPress = Quit | Continue EditorState

definition handleKeyPress :: "int \<Rightarrow> EditorState \<Rightarrow> KeyPress" where
  "handleKeyPress c st =
     (if c = ESCAPE \<or> c = CONTROL (int_of_char CHR ''q'') then Quit
      else if c = ARROW_LEFT then
        Continue (st\<lparr>cx := max_int 0 (int32 (cx st - 1))\<rparr>)
      else if c = ARROW_RIGHT then
        Continue (st\<lparr>cx := min_int (int32 (columns st - 1)) (int32 (cx st + 1))\<rparr>)
      else if c = ARROW_UP then
        (let st1 = st\<lparr>cy := max_int 0 (int32 (cy st - 1))\<rparr>
         in Continue (if cy st1 = 0
                      then st1\<lparr>lineOffset := max_int (int32 (lineOffset st1 - 1)) 0\<rparr>
                      else st1))
      else if c = ARROW_DOWN then
        (let st1 = st\<lparr>cy := min_int (int32 (rows st - 1)) (int32 (cy st + 1))\<rparr>
         in Continue (if cy st1 = int32 (rows st1 - 1)
                      then st1\<lparr>lineOffset := min_int (int32 (lineOffset st1 + 1)) (lineCount st1)\<rparr>
                      else st1))
      else if c = PAGE_UP then
        Continue (st\<lparr>lineOffset := max_int (int32 (lineOffset st - rows st)) 0\<rparr>)
      else if c = PAGE_DOWN then
        Continue (st\<lparr>lineOffset := min_int (int32 (lineOffset st + rows st)) (lineCount st)\<rparr>)
      else if c = HOME then
        Continue (st\<lparr>cx := 0\<rparr>)
      else if c = END then
        Continue (st\<lparr>cx := int32 (columns st - 1)\<rparr>)
      else Continue st)"

text \<open>Sequencing of two steps of which the first may be fatal.\<close>

definition andThen :: "fatal + 'a \<Rightarrow> ('a \<Rightarrow> fatal + 'b) \<Rightarrow> fatal + 'b" where
  "andThen m f = (case m of Inl e \<Rightarrow> Inl e | Inr x \<Rightarrow> f x)"

lemma andThen_simps [simp]:
  "andThen (Inl e) f = Inl e"
  "andThen (Inr x) f = f x"
  by (simp_all add: andThen_def)

subsection \<open>Formatted output\<close>

text \<open>The conversion \<^verbatim>\<open>%d\<close> of \<^verbatim>\<open>printf\<close>.\<close>

definition digit :: "nat \<Rightarrow> char" where
  "digit d = ''0123456789'' ! (d mod 10)"

function digits :: "nat \<Rightarrow> string" where
  "digits n = (if n < 10 then [digit n] else digits (n div 10) @ [digit n])"
  by pat_completeness auto
termination
  by (relation "measure id") auto

declare digits.simps [simp del]

definition showInt :: "int \<Rightarrow> string" where
  "showInt i = (if i < 0 then CHR ''-'' # digits (nat (- i)) else digits (nat i))"

text \<open>
  \<^verbatim>\<open>snprintf(buffer, sz, ...)\<close> where the whole formatted text is \<open>s\<close>: the bytes
  stored in the buffer (at most \<open>sz - 1\<close> characters of \<open>s\<close> and a terminating NUL
  byte; nothing if \<open>sz\<close> is 0) and the value returned, the length of \<open>s\<close>.
\<close>

definition snprintf :: "int \<Rightarrow> string \<Rightarrow> string \<times> int" where
  "snprintf sz s =
     (if sz \<le> 0 then ([], int (length s))
      else (take (nat (sz - 1)) s @ [CHR 0x00], int (length s)))"

section \<open>Document\<close>

definition editorSetStatusMessage :: "string \<Rightarrow> int \<Rightarrow> EditorState \<Rightarrow> EditorState" where
  "editorSetStatusMessage m now st = st\<lparr>message := Some m, messageTime := now\<rparr>"

text \<open>
  The successive results of \<^verbatim>\<open>getline\<close> on a file of the given content: each line
  with its newline, the last one without if the file does not end in a newline.
\<close>

fun getlines :: "string \<Rightarrow> string list" where
  "getlines [] = []"
| "getlines (c # cs) =
     (if c = CHR 0x0A then [c] # getlines cs
      else (case getlines cs of [] \<Rightarrow> [[c]] | l # ls \<Rightarrow> (c # l) # ls))"

text \<open>
  \<^verbatim>\<open>while (length > 0 && (buffer[length - 1] == '\n' || buffer[length - 1] == '\r')) length--;\<close>
\<close>

definition stripLine :: "string \<Rightarrow> string" where
  "stripLine buffer = rev (dropWhile (\<lambda>c. c = CHR 0x0A \<or> c = CHR 0x0D) (rev buffer))"

text \<open>
  \<^verbatim>\<open>editorOpenFile(filename)\<close>; \<open>file\<close> is what \<^verbatim>\<open>fopen\<close> finds: the content of the
  file, or \<open>None\<close> if it cannot be opened. Every line that is read is added to the
  array, and \<^verbatim>\<open>state.lineCount += 1\<close> is a sum like every other: after \<open>2 ^ 31 - 1\<close>
  lines it wraps around.
\<close>

definition editorOpenFile :: "string option \<Rightarrow> string \<Rightarrow> EditorState \<Rightarrow> fatal + EditorState" where
  "editorOpenFile file name st =
     (let st1 = st\<lparr>filename := Some name\<rparr>
      in case file of
           None \<Rightarrow> Inl (Die ''failed to open file'')
         | Some content \<Rightarrow>
             Inr (fold (\<lambda>buffer s. s\<lparr>lines := lines s @ [stripLine buffer],
                                       lineCount := int32 (lineCount s + 1)\<rparr>)
                       (getlines content) st1))"

section \<open>Renderer\<close>

text \<open>The body of the \<^verbatim>\<open>for\<close> loop of \<^verbatim>\<open>editorDrawLines\<close> for the screen row \<open>y\<close>.\<close>

definition drawLine :: "int \<Rightarrow> EditorState \<Rightarrow> BackBuffer \<Rightarrow> fatal + BackBuffer" where
  "drawLine y st bb =
     (let lineNumber = int32 (lineOffset st + y)
      in andThen (backBufferAppend (ESC @ ''[K'') 3 bb) (\<lambda>bb1.
         andThen
           (if lineNumber < lineCount st then
              (if 0 \<le> lineNumber \<and> lineNumber < int (length (lines st)) then
                 (let line = lines st ! nat lineNumber
                  in backBufferAppend line (min_int (int (length line)) (int32 (columns st - 1))) bb1)
               else Inl Undefined)
            else backBufferAppend ''~'' 1 bb1) (\<lambda>bb2.
         backBufferAppend [CHR 0x0D, CHR 0x0A] 2 bb2)))"

text \<open>
  \<^verbatim>\<open>for (int y = 0; y < state.rows; y++) { ... }\<close>, from the row \<open>y\<close> on. The counter is
  incremented only when it is below \<^verbatim>\<open>state.rows\<close>.
\<close>

function drawLines :: "int \<Rightarrow> EditorState \<Rightarrow> BackBuffer \<Rightarrow> fatal + BackBuffer" where
  "drawLines y st bb =
     (if y < rows st then
        (case drawLine y st bb of
           Inl e \<Rightarrow> Inl e
         | Inr bb1 \<Rightarrow> drawLines (y + 1) st bb1)
      else Inr bb)"
  by pat_completeness auto
termination
  by (relation "measure (\<lambda>(y, st, bb). nat (rows st - y))") auto

declare drawLines.simps [simp del]

text \<open>The text that the format of the status line produces.\<close>

definition statusText :: "EditorState \<Rightarrow> string" where
  "statusText st =
     take 20 (case filename st of Some name \<Rightarrow> name | None \<Rightarrow> ''[no file]'')
     @ '' - '' @ showInt (lineCount st)
     @ '' lines    line: '' @ showInt (int32 (lineOffset st + cy st))
     @ ''  column: '' @ showInt (cx st)"

text \<open>
  \<^verbatim>\<open>while (length < state.columns) { backBufferAppend(" ", 1); length++; }\<close> The counter
  is incremented only when it is below \<^verbatim>\<open>state.columns\<close>.
\<close>

function padStatus :: "int \<Rightarrow> EditorState \<Rightarrow> BackBuffer \<Rightarrow> fatal + BackBuffer" where
  "padStatus len st bb =
     (if len < columns st then
        (case backBufferAppend '' '' 1 bb of
           Inl e \<Rightarrow> Inl e
         | Inr bb1 \<Rightarrow> padStatus (len + 1) st bb1)
      else Inr bb)"
  by pat_completeness auto
termination
  by (relation "measure (\<lambda>(len, st, bb). nat (columns st - len))") auto

declare padStatus.simps [simp del]

text \<open>
  The second half of \<^verbatim>\<open>editorDrawLines\<close>, the status line; \<open>now\<close> is the value of
  \<^verbatim>\<open>time(NULL)\<close>. The array \<^verbatim>\<open>char status[state.columns]\<close> needs a positive size.
\<close>

definition drawStatus :: "int \<Rightarrow> EditorState \<Rightarrow> BackBuffer \<Rightarrow> fatal + (EditorState \<times> BackBuffer)" where
  "drawStatus now st bb =
     andThen (backBufferAppend (ESC @ ''[7m'') 4 bb) (\<lambda>bb1.
     if columns st \<le> 0 then Inl Undefined
     else
       andThen
         (case message st of
            None \<Rightarrow>
              (case snprintf (columns st) (statusText st) of
                 (status, len) \<Rightarrow>
                   (let len1 = min_int len (columns st)
                    in andThen (backBufferAppend status len1 bb1) (\<lambda>bb2. Inr (len1, st, bb2))))
          | Some m \<Rightarrow>
              (let len1 = min_int (int (length m)) (columns st)
               in andThen (backBufferAppend m len1 bb1) (\<lambda>bb2.
                    Inr (len1,
                         if now - messageTime st > 5
                         then st\<lparr>message := None, messageTime := 0\<rparr> else st,
                         bb2))))
         (\<lambda>(len1, st1, bb2).
            andThen (padStatus len1 st1 bb2) (\<lambda>bb3.
            andThen (backBufferAppend (ESC @ ''[m'') 3 bb3) (\<lambda>bb4. Inr (st1, bb4)))))"

definition editorDrawLines :: "int \<Rightarrow> EditorState \<Rightarrow> BackBuffer \<Rightarrow> fatal + (EditorState \<times> BackBuffer)" where
  "editorDrawLines now st bb = andThen (drawLines 0 st bb) (drawStatus now st)"

section \<open>Terminal and process\<close>

text \<open>
  \<^verbatim>\<open>struct termios\<close>: each flag word is the set of the flags that are set in it, and
  of the control characters only \<^verbatim>\<open>c_cc[VMIN]\<close> and \<^verbatim>\<open>c_cc[VTIME]\<close> are kept.
\<close>

datatype flag =
  BRKINT | ICRNL | INPCK | ISTRIP | IXON | OPOST | CS8 | ECHO | ICANON | IEXTEN | ISIG
  | OtherFlag nat

record termios =
  c_iflag :: "flag set"
  c_oflag :: "flag set"
  c_cflag :: "flag set"
  c_lflag :: "flag set"
  c_cc_VMIN :: nat
  c_cc_VTIME :: nat

text \<open>The functions that the program registers with \<^verbatim>\<open>atexit\<close>.\<close>

datatype hook = TerminalReset | BackBufferDestroy

text \<open>
  The process: the attributes of the terminal on standard input (\<open>None\<close> if standard
  input is not a terminal, so that \<^verbatim>\<open>tcgetattr\<close> and \<^verbatim>\<open>tcsetattr\<close> fail), the
  registered exit functions (the latest first), the \<^verbatim>\<open>write\<close> calls on standard output
  in order, the diagnostics of \<^verbatim>\<open>perror\<close>, the input not yet read, and the global
  variables \<^verbatim>\<open>originalTerminalMode\<close>, \<^verbatim>\<open>state\<close> and \<^verbatim>\<open>backBuffer\<close>.
\<close>

record Process =
  tty :: "termios option"
  hooks :: "hook list"
  stdout :: "string list"
  stderr :: "string list"
  pending :: stdin
  originalTerminalMode :: termios
  state :: EditorState
  backBuffer :: BackBuffer

text \<open>
  How a run ends: the process exits with a status, or waits for ever for a key that
  never comes, or reaches an undefined operation.
\<close>

datatype Outcome = Exited int Process | Blocked Process | Crashed Process

text \<open>The process in which a run ends.\<close>

fun processOf :: "Outcome \<Rightarrow> Process" where
  "processOf (Exited status p) = p"
| "processOf (Blocked p) = p"
| "processOf (Crashed p) = p"

definition write_stdout :: "string \<Rightarrow> Process \<Rightarrow> Process" where
  "write_stdout bytes p = p\<lparr>stdout := stdout p @ [bytes]\<rparr>"

definition tcsetattr :: "termios \<Rightarrow> Process \<Rightarrow> Process" where
  "tcsetattr mode p = (case tty p of None \<Rightarrow> p | Some t \<Rightarrow> p\<lparr>tty := Some mode\<rparr>)"

definition terminalReset :: "Process \<Rightarrow> Process" where
  "terminalReset p = tcsetattr (originalTerminalMode p) p"

definition backBufferDestroy :: "Process \<Rightarrow> Process" where
  "backBufferDestroy p = p\<lparr>backBuffer := \<lparr>data = [], capacity = 0\<rparr>\<rparr>"

text \<open>
  \<^verbatim>\<open>backBufferInit(capacity)\<close>, which also registers \<^verbatim>\<open>backBufferDestroy\<close>. The
  allocation is taken to succeed.
\<close>

definition backBufferInit :: "int \<Rightarrow> Process \<Rightarrow> Process" where
  "backBufferInit cap p =
     p\<lparr>backBuffer := \<lparr>data = [], capacity = cap\<rparr>, hooks := BackBufferDestroy # hooks p\<rparr>"

fun runHook :: "hook \<Rightarrow> Process \<Rightarrow> Process" where
  "runHook TerminalReset p = terminalReset p"
| "runHook BackBufferDestroy p = backBufferDestroy p"

text \<open>\<^verbatim>\<open>exit(status)\<close> calls the registered functions, the latest first.\<close>

definition exit :: "int \<Rightarrow> Process \<Rightarrow> Outcome" where
  "exit status p = Exited status (fold runHook (hooks p) p)"

definition die :: "string \<Rightarrow> Process \<Rightarrow> Outcome" where
  "die s p =
     (let p1 = write_stdout (ESC @ ''[2J'' @ ESC @ ''[H'') p;
          p2 = p1\<lparr>stderr := stderr p1 @ [s]\<rparr>
      in exit 1 p2)"

definition terminalRawMode :: "Process \<Rightarrow> Process" where
  "terminalRawMode p =
     (let p1 = (case tty p of None \<Rightarrow> p | Some t \<Rightarrow> p\<lparr>originalTerminalMode := t\<rparr>);
          p2 = p1\<lparr>hooks := TerminalReset # hooks p1\<rparr>;
          mode = originalTerminalMode p2;
          mode1 = mode\<lparr>c_iflag := c_iflag mode - {BRKINT, ICRNL, INPCK, ISTRIP, IXON}\<rparr>;
          mode2 = mode1\<lparr>c_oflag := c_oflag mode1 - {OPOST}\<rparr>;
          mode3 = mode2\<lparr>c_cflag := c_cflag mode2 \<union> {CS8}\<rparr>;
          mode4 = mode3\<lparr>c_lflag := c_lflag mode3 - {ECHO, ICANON, IEXTEN, ISIG}\<rparr>;
          mode5 = mode4\<lparr>c_cc_VMIN := 0\<rparr>;
          mode6 = mode5\<lparr>c_cc_VTIME := 1\<rparr>
      in tcsetattr mode6 p2)"

definition terminalCursorHome :: "Process \<Rightarrow> Process" where
  "terminalCursorHome = write_stdout (ESC @ ''[H'')"

definition terminalCursorOut :: "Process \<Rightarrow> Process" where
  "terminalCursorOut = write_stdout (ESC @ ''[999C'' @ ESC @ ''[999B'')"

definition terminalReadCursorPosition :: "Process \<Rightarrow> Process" where
  "terminalReadCursorPosition = write_stdout (ESC @ ''[6n'')"

definition terminalCursorHide :: "Process \<Rightarrow> Process" where
  "terminalCursorHide = write_stdout (ESC @ ''[?25l'')"

definition terminalCursorShow :: "Process \<Rightarrow> Process" where
  "terminalCursorShow = write_stdout (ESC @ ''[?25h'')"

text \<open>
  The buffer has 32 bytes: \<^verbatim>\<open>snprintf\<close> keeps at most 31 characters, and \<^verbatim>\<open>strlen\<close>
  counts those before the terminating NUL.
\<close>

definition terminalSetCursorPosition :: "int \<Rightarrow> int \<Rightarrow> Process \<Rightarrow> Process" where
  "terminalSetCursorPosition x y =
     write_stdout (takeWhile (\<lambda>c. c \<noteq> CHR 0x00)
       (fst (snprintf 32 (ESC @ ''['' @ showInt (int32 (y + 1)) @ '';'' @ showInt (int32 (x + 1)) @ ''H''))))"

definition terminalClearScreen :: "Process \<Rightarrow> Process" where
  "terminalClearScreen = write_stdout (ESC @ ''[2J'' @ ESC @ ''[H'')"

definition backBufferRender :: "Process \<Rightarrow> Process" where
  "backBufferRender p = write_stdout (data (backBuffer p)) p"

subsection \<open>Window size\<close>

text \<open>
  The loop of \<^verbatim>\<open>terminalGetSize\<close> that reads the reply to the cursor position
  report, up to 31 bytes, a failed read or the byte \<^verbatim>\<open>R\<close>; \<open>buffer\<close> holds the
  bytes \<^verbatim>\<open>buffer[0 .. i)\<close>.
\<close>

function readReply :: "string \<Rightarrow> stdin \<Rightarrow> string \<times> stdin" where
  "readReply buffer inp =
     (if length buffer < 31 then
        (case inp of
           [] \<Rightarrow> (buffer, [])
         | None # rest \<Rightarrow> (buffer, rest)
         | Some b # rest \<Rightarrow>
             if b = CHR ''R'' then (buffer, rest) else readReply (buffer @ [b]) rest)
      else (buffer, inp))"
  by pat_completeness auto
termination
  by (relation "measure (\<lambda>(buffer, inp). 31 - length buffer)") auto

declare readReply.simps [simp del]

text \<open>
  The conversion \<^verbatim>\<open>%d\<close> of \<^verbatim>\<open>sscanf\<close>: white space is skipped, then an optional
  sign and at least one decimal digit are read. The result is the number and the
  text after it. For a number outside the range of \<^verbatim>\<open>int\<close> the C standard defines no
  result; the C library converts the digits as \<^verbatim>\<open>strtol\<close> does, to a \<^verbatim>\<open>long\<close> of 64 bits
  that stops at its largest or smallest value, and stores the low 32 bits of it.
\<close>

definition isspace :: "char \<Rightarrow> bool" where
  "isspace c = (c \<in> set [CHR '' '', CHR 0x09, CHR 0x0A, CHR 0x0B, CHR 0x0C, CHR 0x0D])"

definition isdigit :: "char \<Rightarrow> bool" where
  "isdigit c = (c \<in> set ''0123456789'')"

definition digitValue :: "char \<Rightarrow> int" where
  "digitValue c = of_char c - 48"

definition scanInt :: "string \<Rightarrow> (int \<times> string) option" where
  "scanInt s =
     (let s1 = dropWhile isspace s;
          negative = (case s1 of [] \<Rightarrow> False | c # r \<Rightarrow> c = CHR ''-'');
          s2 = (case s1 of [] \<Rightarrow> [] | c # r \<Rightarrow> if c = CHR ''-'' \<or> c = CHR ''+'' then r else s1);
          ds = takeWhile isdigit s2;
          v = foldl (\<lambda>a c. 10 * a + digitValue c) 0 ds;
          l = (if negative then max_int (- v) (- 9223372036854775808)
               else min_int v 9223372036854775807)
      in if ds = [] then None
         else Some (int32 l, dropWhile isdigit s2))"

text \<open>
  \<^verbatim>\<open>sscanf(buffer, ESC "[%d;%d", rows, columns)\<close> on the C string in \<open>buffer\<close>, with
  the values of \<^verbatim>\<open>*rows\<close> and \<^verbatim>\<open>*columns\<close> before the call: a conversion that is not
  reached leaves its variable as it was.
\<close>

definition sscanfSize :: "string \<Rightarrow> int \<times> int \<Rightarrow> int \<times> int" where
  "sscanfSize buffer rc =
     (case takeWhile (\<lambda>c. c \<noteq> CHR 0x00) buffer of
        c1 # c2 # s \<Rightarrow>
          if c1 = CHR 0x1B \<and> c2 = CHR ''['' then
            (case scanInt s of
               None \<Rightarrow> rc
             | Some (r, s1) \<Rightarrow>
                 (case s1 of
                    c3 # s2 \<Rightarrow>
                      if c3 = CHR '';'' then
                        (case scanInt s2 of None \<Rightarrow> (r, snd rc) | Some (c, s3) \<Rightarrow> (r, c))
                      else (r, snd rc)
                  | [] \<Rightarrow> (r, snd rc)))
          else rc
      | _ \<Rightarrow> rc)"

text \<open>
  \<^verbatim>\<open>terminalGetSize(&state.rows, &state.columns)\<close>; \<open>ws\<close> is what the ioctl
  \<^verbatim>\<open>TIOCGWINSZ\<close> reports (\<^verbatim>\<open>ws_row\<close> and \<^verbatim>\<open>ws_col\<close>, each an \<^verbatim>\<open>unsigned short\<close>), or
  \<open>None\<close> if it fails. \<open>terminalProbeSize\<close> is the \<^verbatim>\<open>else\<close> branch.
\<close>

definition terminalProbeSize :: "Process \<Rightarrow> Process" where
  "terminalProbeSize p =
     (let p1 = terminalReadCursorPosition (terminalCursorOut p)
      in case readReply [] (pending p1) of
           (buffer, rest) \<Rightarrow>
             (case sscanfSize buffer (rows (state p1), columns (state p1)) of
                (r, c) \<Rightarrow>
                  p1\<lparr>pending := rest, state := (state p1)\<lparr>rows := r, columns := c\<rparr>\<rparr>))"

definition terminalGetSize :: "(16 word \<times> 16 word) option \<Rightarrow> Process \<Rightarrow> Process" where
  "terminalGetSize ws p =
     (case ws of
        None \<Rightarrow> terminalProbeSize p
      | Some (ws_row, ws_col) \<Rightarrow>
          if ws_col > 0
          then p\<lparr>state := (state p)\<lparr>rows := uint ws_row, columns := uint ws_col\<rparr>\<rparr>
          else terminalProbeSize p)"

definition editorInit :: "(16 word \<times> 16 word) option \<Rightarrow> Process \<Rightarrow> Process" where
  "editorInit ws p =
     (let p1 = p\<lparr>state := (state p)\<lparr>cx := 0, cy := 0, lines := [], lineCount := 0, lineOffset := 0\<rparr>\<rparr>;
          p2 = terminalGetSize ws p1;
          p3 = p2\<lparr>state := (state p2)\<lparr>rows := int32 (rows (state p2) - 1)\<rparr>\<rparr>
      in p3\<lparr>state := (state p3)\<lparr>filename := None, message := None, messageTime := 0\<rparr>\<rparr>)"

section \<open>Controller\<close>

text \<open>
  What the program is started in: the terminal, the window size, the input, the
  arguments after the program name, the files that can be opened, the clock (the
  value of \<^verbatim>\<open>time(NULL)\<close> at the start and while the \<open>n\<close>-th frame is drawn) and the
  stack (the contents of \<^verbatim>\<open>sequence\<close> at the \<open>n\<close>-th call of \<^verbatim>\<open>readKey\<close>).
\<close>

record Environment =
  terminal :: "termios option"
  winsize :: "(16 word \<times> 16 word) option"
  input :: stdin
  args :: "string list"
  fopen :: "string \<Rightarrow> string option"
  startTime :: int
  frameTime :: "nat \<Rightarrow> int"
  stack :: "nat \<Rightarrow> nat \<Rightarrow> char"

text \<open>The process at the start of \<^verbatim>\<open>main\<close>: the global variables are zero.\<close>

definition startProcess :: "Environment \<Rightarrow> Process" where
  "startProcess env =
     \<lparr>tty = terminal env, hooks = [], stdout = [], stderr = [], pending = input env,
      originalTerminalMode =
        \<lparr>c_iflag = {}, c_oflag = {}, c_cflag = {}, c_lflag = {}, c_cc_VMIN = 0, c_cc_VTIME = 0\<rparr>,
      state =
        \<lparr>rows = 0, columns = 0, cx = 0, cy = 0, lines = [], lineCount = 0, lineOffset = 0,
         filename = None, message = None, messageTime = 0\<rparr>,
      backBuffer = \<lparr>data = [], capacity = 0\<rparr>\<rparr>"

text \<open>Every call of \<open>readKey\<close> that returns has consumed input.\<close>

lemma awaitByte_shorter: "awaitByte inp = Some (c, rest) \<Longrightarrow> length rest < length inp"
  by (induction inp rule: awaitByte.induct) auto

lemma readSequence_length: "length (snd (readSequence i sq inp)) \<le> length inp"
proof (induction i sq inp rule: readSequence.induct)
  case (1 i sq inp)
  show ?case
  proof (cases "i < 3")
    case False
    then show ?thesis by (subst readSequence.simps) simp
  next
    case True
    show ?thesis
    proof (cases inp)
      case Nil
      with True show ?thesis by (subst readSequence.simps) simp
    next
      case (Cons r rest)
      show ?thesis
      proof (cases r)
        case None
        with True Cons show ?thesis by (subst readSequence.simps) simp
      next
        case (Some b)
        from "1" [OF True Cons Some]
        have "length (snd (readSequence (i + 1) (sq(i := b)) rest)) \<le> length rest" .
        with True Cons Some show ?thesis by (subst readSequence.simps) simp
      qed
    qed
  qed
qed

lemma readKey_shorter: "readKey stale inp = Some (c, rest) \<Longrightarrow> length rest < length inp"
  unfolding readKey_def
  using readSequence_length
  apply (auto split: option.splits if_splits prod.splits dest!: awaitByte_shorter)
  by (metis le_less_trans snd_conv)

text \<open>
  The loop \<^verbatim>\<open>while (1) { ... }\<close> of \<^verbatim>\<open>main\<close>, at its \<open>n\<close>-th round. A round reads at
  least one byte, so on a finite input the loop ends: in an exit, or waiting for a key.
\<close>

function mainLoop :: "Environment \<Rightarrow> nat \<Rightarrow> Process \<Rightarrow> Outcome" where
  "mainLoop env n p =
     (let p1 = terminalCursorHome (terminalCursorHide p);
          p2 = p1\<lparr>backBuffer := backBufferClear (backBuffer p1)\<rparr>
      in case editorDrawLines (frameTime env n) (state p2) (backBuffer p2) of
           Inl (Die s) \<Rightarrow> die s p2
         | Inl Undefined \<Rightarrow> Crashed p2
         | Inr (st, bb) \<Rightarrow>
             (let p3 = backBufferRender (p2\<lparr>state := st, backBuffer := bb\<rparr>);
                  p4 = terminalCursorShow (terminalSetCursorPosition (cx st) (cy st) p3)
              in case readKey (stack env n) (pending p4) of
                   None \<Rightarrow> Blocked p4
                 | Some (c, rest) \<Rightarrow>
                     (case handleKeyPress c st of
                        Quit \<Rightarrow> exit 0 (terminalClearScreen (p4\<lparr>pending := rest\<rparr>))
                      | Continue st1 \<Rightarrow>
                          mainLoop env (n + 1) (p4\<lparr>pending := rest, state := st1\<rparr>))))"
  by pat_completeness auto
termination
  apply (relation "measure (\<lambda>(env, n, p). length (pending p))")
   apply simp
  apply (auto simp: terminalCursorHome_def terminalCursorHide_def write_stdout_def
      backBufferRender_def terminalCursorShow_def terminalSetCursorPosition_def
      dest!: readKey_shorter)
  done

declare mainLoop.simps [simp del]

text \<open>
  \<^verbatim>\<open>int main(int argc, char *argv[])\<close>; \<open>args env\<close> is \<^verbatim>\<open>argv[1], ...\<close> The function
  \<open>startup\<close> is \<^verbatim>\<open>main\<close> up to its loop: the process that enters the loop, or the
  outcome if the file cannot be opened.
\<close>

definition startup :: "Environment \<Rightarrow> Outcome + Process" where
  "startup env =
     (let p1 = terminalRawMode (startProcess env);
          p2 = editorInit (winsize env) p1
      in case (case args env of
                 [] \<Rightarrow> Inr (state p2)
               | name # _ \<Rightarrow> editorOpenFile (fopen env name) name (state p2)) of
           Inl (Die s) \<Rightarrow> Inl (die s p2)
         | Inl Undefined \<Rightarrow> Inl (Crashed p2)
         | Inr st \<Rightarrow>
             (let p3 = p2\<lparr>state := st\<rparr>;
                  p4 = backBufferInit (int32 (int32 (columns st * rows st) * 8)) p3;
                  p5 = terminalClearScreen p4
              in Inr (p5\<lparr>state := editorSetStatusMessage ''HELP: press CTRL+Q to quit''
                                     (startTime env) (state p5)\<rparr>)))"

definition main :: "Environment \<Rightarrow> Outcome" where
  "main env = (case startup env of Inl outcome \<Rightarrow> outcome | Inr p \<Rightarrow> mainLoop env 0 p)"

text \<open>
  The editor states that the loop of \<^verbatim>\<open>main\<close> passes through from the state \<open>st0\<close>:
  a round draws a frame (which may drop an expired status message) and handles a key.
\<close>

inductive reachable :: "EditorState \<Rightarrow> EditorState \<Rightarrow> bool" for st0 :: EditorState where
  start: "reachable st0 st0"
| frame: "reachable st0 st \<Longrightarrow> editorDrawLines now st bb = Inr (st1, bb1) \<Longrightarrow> reachable st0 st1"
| key: "reachable st0 st \<Longrightarrow> handleKeyPress c st = Continue st1 \<Longrightarrow> reachable st0 st1"

text \<open>A sequence of keys handled one after the other, as the loop does.\<close>

fun handleKeys :: "int list \<Rightarrow> EditorState \<Rightarrow> KeyPress" where
  "handleKeys [] st = Continue st"
| "handleKeys (c # cs) st =
     (case handleKeyPress c st of Quit \<Rightarrow> Quit | Continue st1 \<Rightarrow> handleKeys cs st1)"

text \<open>The viewport invariant of the specification, on the fields of the state.\<close>

definition viewport :: "EditorState \<Rightarrow> bool" where
  "viewport st \<longleftrightarrow>
     0 \<le> cx st \<and> cx st < columns st \<and> 0 \<le> cy st \<and> cy st < rows st
     \<and> 0 \<le> lineOffset st \<and> lineOffset st \<le> lineCount st"

text \<open>
  The size that \<^verbatim>\<open>terminalGetSize\<close> stores when \<^verbatim>\<open>editorInit\<close> calls it: the rows and
  columns of the terminal as the program observes them at startup.
\<close>

definition observedSize :: "Environment \<Rightarrow> int \<times> int" where
  "observedSize env =
     (let p = terminalGetSize (winsize env) (terminalRawMode (startProcess env))
      in (rows (state p), columns (state p)))"

section \<open>The scenario of the specification\<close>

text \<open>
  A terminal of 10 rows and 20 columns, and the file \<^verbatim>\<open>fname\<close> with the three lines
  \<^verbatim>\<open>alpha\<close>, \<^verbatim>\<open>beta\<close> and \<^verbatim>\<open>gamma\<close>; \<open>scenarioProcess\<close> is the process with which
  \<^verbatim>\<open>main\<close> enters its loop there and \<open>scenario2\<close> its editor state
  (\<open>startup_scenario\<close> below). \<open>oneRowEnv\<close> is the same on a terminal of one row.
\<close>

definition scenarioTerminal :: termios where
  "scenarioTerminal =
     \<lparr>c_iflag = {ICRNL, IXON}, c_oflag = {OPOST}, c_cflag = {CS8},
      c_lflag = {ECHO, ICANON, IEXTEN, ISIG}, c_cc_VMIN = 1, c_cc_VTIME = 0\<rparr>"

definition scenarioEnv :: Environment where
  "scenarioEnv =
     \<lparr>terminal = Some scenarioTerminal,
      winsize = Some (10, 20),
      input = [],
      args = [''fname''],
      fopen = (\<lambda>name. if name = ''fname''
                        then Some (''alpha'' @ [CHR 0x0A] @ ''beta'' @ [CHR 0x0A] @ ''gamma'' @ [CHR 0x0A])
                        else None),
      startTime = 0, frameTime = (\<lambda>n. 0), stack = (\<lambda>n i. CHR 0x00)\<rparr>"

definition scenario2 :: EditorState where
  "scenario2 =
     \<lparr>rows = 9, columns = 20, cx = 0, cy = 0, lines = [''alpha'', ''beta'', ''gamma''],
      lineCount = 3, lineOffset = 0, filename = Some ''fname'',
      message = Some ''HELP: press CTRL+Q to quit'', messageTime = 0\<rparr>"

definition scenarioProcess :: Process where
  "scenarioProcess =
     \<lparr>tty = Some \<lparr>c_iflag = {}, c_oflag = {}, c_cflag = {CS8}, c_lflag = {},
                   c_cc_VMIN = 0, c_cc_VTIME = 1\<rparr>,
      hooks = [BackBufferDestroy, TerminalReset],
      stdout = [ESC @ ''[2J'' @ ESC @ ''[H''],
      stderr = [],
      pending = [],
      originalTerminalMode = scenarioTerminal,
      state = scenario2,
      backBuffer = \<lparr>data = [], capacity = 1440\<rparr>\<rparr>"

definition oneRowEnv :: Environment where
  "oneRowEnv = scenarioEnv\<lparr>winsize := Some (1, 20)\<rparr>"

section \<open>The table of escape sequences\<close>

text \<open>
  The table of section 4.5 of the specification, row by row: what follows the byte
  \<^verbatim>\<open>0x1b\<close> (two bytes, or in the last row anything else) and the token. It is what
  \<open>readKey\<close> is compared with.
\<close>

datatype entry = Bytes char char | AnythingElse

definition escapeTable :: "(entry \<times> int) list" where
  "escapeTable =
     [(Bytes CHR ''['' CHR ''A'', ARROW_UP),
      (Bytes CHR ''['' CHR ''B'', ARROW_DOWN),
      (Bytes CHR ''['' CHR ''C'', ARROW_RIGHT),
      (Bytes CHR ''['' CHR ''D'', ARROW_LEFT),
      (Bytes CHR ''['' CHR ''F'', END),
      (Bytes CHR ''['' CHR ''H'', HOME),
      (Bytes CHR ''['' CHR ''1'', HOME),
      (Bytes CHR ''['' CHR ''3'', DELETE),
      (Bytes CHR ''['' CHR ''4'', END),
      (Bytes CHR ''['' CHR ''5'', PAGE_UP),
      (Bytes CHR ''['' CHR ''6'', PAGE_DOWN),
      (Bytes CHR ''['' CHR ''7'', HOME),
      (Bytes CHR ''['' CHR ''8'', END),
      (Bytes CHR ''O'' CHR ''F'', END),
      (Bytes CHR ''O'' CHR ''H'', HOME),
      (AnythingElse, ESCAPE)]"

text \<open>
  The two bytes \<open>a\<close> and \<open>b\<close> fall under a row of the table: they are the bytes of the
  row or, for the last row, the bytes of no row.
\<close>

fun fallsUnder :: "char \<Rightarrow> char \<Rightarrow> entry \<Rightarrow> bool" where
  "fallsUnder a b (Bytes x y) \<longleftrightarrow> a = x \<and> b = y"
| "fallsUnder a b AnythingElse \<longleftrightarrow> Bytes a b \<notin> fst ` set escapeTable"

section \<open>The frame\<close>

text \<open>
  What a frame consists of, written out from the description of the renderer: the
  text of a screen row (the document line at \<open>lineOffset + y\<close> cut to \<open>columns - 1\<close>
  bytes, or a tilde past the end of the document), the row with its clear-to-end-of-line
  sequence and its line terminator, and the rows from \<open>y\<close> on and all of them.
  These are compared with \<open>editorDrawLines\<close> below.
\<close>

definition rowText :: "EditorState \<Rightarrow> int \<Rightarrow> string" where
  "rowText st y =
     (if lineOffset st + y < lineCount st
      then take (nat (columns st - 1)) (lines st ! nat (lineOffset st + y))
      else ''~'')"

definition textRow :: "EditorState \<Rightarrow> int \<Rightarrow> string" where
  "textRow st y = ESC @ ''[K'' @ rowText st y @ [CHR 0x0D, CHR 0x0A]"

definition rowsFrom :: "int \<Rightarrow> EditorState \<Rightarrow> string" where
  "rowsFrom y st = concat (map (\<lambda>i. textRow st (int i)) [nat y..<nat (rows st)])"

definition textRows :: "EditorState \<Rightarrow> string" where
  "textRows st = concat (map (\<lambda>i. textRow st (int i)) [0..<nat (rows st)])"

text \<open>
  The \<open>columns\<close> bytes that \<open>drawStatus\<close> puts between the two reverse video
  sequences, in closed form: the status text padded with blanks when it is shorter
  than \<open>columns\<close>; otherwise the first \<open>columns - 1\<close> characters of it and the NUL byte
  that \<^verbatim>\<open>snprintf\<close> stores after them; the message cut to \<open>columns\<close> and padded when
  there is one.
\<close>

definition statusBody :: "EditorState \<Rightarrow> string" where
  "statusBody st =
     (case message st of
        None \<Rightarrow>
          (if int (length (statusText st)) < columns st
           then statusText st @ replicate (nat (columns st) - length (statusText st)) CHR '' ''
           else take (nat (columns st - 1)) (statusText st) @ [CHR 0x00])
      | Some m \<Rightarrow> take (nat (columns st)) m @ replicate (nat (columns st) - length m) CHR '' '')"

definition statusRow :: "EditorState \<Rightarrow> string" where
  "statusRow st = ESC @ ''[7m'' @ statusBody st @ ESC @ ''[m''"

text \<open>The state after a frame: a message older than 5 seconds is dropped.\<close>

definition expireMessage :: "int \<Rightarrow> EditorState \<Rightarrow> EditorState" where
  "expireMessage now st =
     (case message st of
        None \<Rightarrow> st
      | Some m \<Rightarrow> if now - messageTime st > 5 then st\<lparr>message := None, messageTime := 0\<rparr> else st)"

text \<open>The buffer with further bytes at its end.\<close>

definition appendBytes :: "BackBuffer \<Rightarrow> string \<Rightarrow> BackBuffer" where
  "appendBytes bb xs = bb\<lparr>data := data bb @ xs\<rparr>"

definition overflow :: fatal where
  "overflow = Die ''back buffer capacity exceeded''"



text \<open>
  A terminal of five rows and one column, without a file, and the editor state with
  which \<^verbatim>\<open>main\<close> enters its loop there: the first frame has as many bytes as the
  buffer has capacity.
\<close>

definition narrowEnv :: Environment where
  "narrowEnv = scenarioEnv\<lparr>winsize := Some (5, 1), args := []\<rparr>"

definition narrowState :: EditorState where
  "narrowState =
     \<lparr>rows = 4, columns = 1, cx = 0, cy = 0, lines = [], lineCount = 0, lineOffset = 0,
      filename = None, message = Some ''HELP: press CTRL+Q to quit'', messageTime = 0\<rparr>"

text \<open>A terminal of 4098 rows and 65535 columns, without a file.\<close>

definition wideEnv :: Environment where
  "wideEnv = scenarioEnv\<lparr>winsize := Some (4098, 65535), args := []\<rparr>"

section \<open>Exit\<close>

text \<open>
  The attributes that \<^verbatim>\<open>terminalReset\<close> leaves the terminal with: those saved in
  \<^verbatim>\<open>originalTerminalMode\<close>, if there is a terminal.
\<close>

definition restoredTty :: "Process \<Rightarrow> termios option" where
  "restoredTty p = (case tty p of None \<Rightarrow> None | Some t \<Rightarrow> Some (originalTerminalMode p))"

text \<open>
  The bytes of the clear-screen-and-home sequence, and three runs of the program: one
  key, Ctrl-Q; a file that cannot be opened; and standard input that is not a terminal
  (the calls \<^verbatim>\<open>tcgetattr\<close> and \<^verbatim>\<open>tcsetattr\<close> of \<^verbatim>\<open>terminalRawMode\<close> fail), one
  key, Ctrl-Q.
\<close>

definition clearScreen :: string where
  "clearScreen = ESC @ ''[2J'' @ ESC @ ''[H''"

definition quitEnv :: Environment where
  "quitEnv = scenarioEnv\<lparr>input := [Some (CHR 0x11)]\<rparr>"

definition missingFileEnv :: Environment where
  "missingFileEnv = scenarioEnv\<lparr>args := [''missing'']\<rparr>"

definition noTerminalEnv :: Environment where
  "noTerminalEnv = scenarioEnv\<lparr>terminal := None, input := [Some (CHR 0x11)]\<rparr>"

text \<open>
  A run in which the window size cannot be determined: the ioctl fails and no reply
  to the cursor position report arrives.
\<close>

definition noSizeEnv :: Environment where
  "noSizeEnv = scenarioEnv\<lparr>winsize := None\<rparr>"

section \<open>Properties\<close>

subsection \<open>Arithmetic in \<^verbatim>\<open>int\<close>\<close>

lemma int32_id: "intRange x \<Longrightarrow> int32 x = x"
  by (simp add: int32_def intRange_def)

lemma intRange_int32: "intRange (int32 x)"
  by (simp add: int32_def intRange_def)

lemma int32_add: "int32 (int32 a + b) = int32 (a + b)"
proof -
  have 1: "int32 a + b + 2147483648 = (a + 2147483648) mod 4294967296 + b"
    by (simp add: int32_def)
  have 2: "((a + 2147483648) mod 4294967296 + b) mod 4294967296
      = (a + 2147483648 + b) mod 4294967296"
    by (rule mod_add_left_eq)
  have 3: "a + 2147483648 + b = a + b + 2147483648" by simp
  show ?thesis by (simp only: int32_def [of "int32 a + b"] int32_def [of "a + b"] 1 2 3)
qed

lemma intRange_uint: "intRange (uint (w :: 16 word))"
proof -
  have "0 \<le> uint w" by simp
  moreover have "uint w < 65536" using uint_bounded [of w] by simp
  ultimately show ?thesis unfolding intRange_def by linarith
qed

lemma CONTROL_q: "CONTROL (int_of_char CHR ''q'') = 0x11"
  by (simp add: CONTROL_def int_of_char_def)

lemmas key_simps =
  handleKeyPress_def Key_defs CONTROL_q min_int_def max_int_def int32_def Let_def

lemmas startup_simps =
  startup_def terminalRawMode_def startProcess_def tcsetattr_def editorInit_def
  terminalGetSize_def editorOpenFile_def stripLine_def backBufferInit_def
  terminalClearScreen_def write_stdout_def editorSetStatusMessage_def intRange_def int32_def
  Let_def

lemma startup_scenario: "startup scenarioEnv = Inr scenarioProcess"
  by (simp add: scenarioEnv_def scenarioProcess_def scenario2_def scenarioTerminal_def
      startup_simps)

lemma state_scenarioProcess: "state scenarioProcess = scenario2"
  by (simp add: scenarioProcess_def)

subsection \<open>Key handling\<close>

lemma handleKeyPress_viewport_only:
  "handleKeyPress c st = Continue st1 \<Longrightarrow>
   st1 = st\<lparr>cx := cx st1, cy := cy st1, lineOffset := lineOffset st1\<rparr>"
  by (cases st) (auto simp: handleKeyPress_def Let_def split: if_splits)

lemma handleKeyPress_DELETE: "handleKeyPress DELETE st = Continue st"
  by (simp add: handleKeyPress_def Key_defs CONTROL_q)

lemma handleKeyPress_byte:
  "- 128 \<le> c \<Longrightarrow> c \<le> 255 \<Longrightarrow> c \<noteq> ESCAPE \<Longrightarrow> c \<noteq> CONTROL (int_of_char CHR ''q'')
   \<Longrightarrow> handleKeyPress c st = Continue st"
  by (simp add: handleKeyPress_def Key_defs CONTROL_q)

text \<open>
  Claim C10. Handling one key changes at most the fields \<open>cx\<close>, \<open>cy\<close> and
  \<open>lineOffset\<close> of the editor state: the lines, \<open>lineCount\<close>, the file name, the status
  message and its time, \<open>rows\<close> and \<open>columns\<close> stay as they are. The key \<open>DELETE\<close> and
  every byte value other than Escape and Ctrl-Q leave the whole state unchanged.
\<close>

theorem handleKeyPress_frame:
  "(handleKeyPress c st = Continue st1 \<longrightarrow>
      st1 = st\<lparr>cx := cx st1, cy := cy st1, lineOffset := lineOffset st1\<rparr>
      \<and> lines st1 = lines st \<and> lineCount st1 = lineCount st \<and> filename st1 = filename st
      \<and> message st1 = message st \<and> messageTime st1 = messageTime st
      \<and> rows st1 = rows st \<and> columns st1 = columns st)
   \<and> (k = DELETE \<or> (- 128 \<le> k \<and> k \<le> 255 \<and> k \<noteq> ESCAPE \<and> k \<noteq> CONTROL (int_of_char CHR ''q''))
        \<longrightarrow> handleKeyPress k st = Continue st)"
proof (intro conjI impI)
  assume "k = DELETE \<or> (- 128 \<le> k \<and> k \<le> 255 \<and> k \<noteq> ESCAPE \<and> k \<noteq> CONTROL (int_of_char CHR ''q''))"
  then show "handleKeyPress k st = Continue st"
    using handleKeyPress_DELETE handleKeyPress_byte by blast
next
  assume "handleKeyPress c st = Continue st1"
  then have eq: "st1 = st\<lparr>cx := cx st1, cy := cy st1, lineOffset := lineOffset st1\<rparr>"
    by (rule handleKeyPress_viewport_only)
  show "st1 = st\<lparr>cx := cx st1, cy := cy st1, lineOffset := lineOffset st1\<rparr>" by (rule eq)
  show "lines st1 = lines st" by (subst eq) simp
  show "lineCount st1 = lineCount st" by (subst eq) simp
  show "filename st1 = filename st" by (subst eq) simp
  show "message st1 = message st" by (subst eq) simp
  show "messageTime st1 = messageTime st" by (subst eq) simp
  show "rows st1 = rows st" by (subst eq) simp
  show "columns st1 = columns st" by (subst eq) simp
qed

theorem handleKeyPress_frame_witness:
  "handleKeyPress ARROW_DOWN scenario2 = Continue (scenario2\<lparr>cy := 1\<rparr>)
   \<and> lines (scenario2\<lparr>cy := 1\<rparr>) = lines scenario2
   \<and> lineCount (scenario2\<lparr>cy := 1\<rparr>) = lineCount scenario2
   \<and> message (scenario2\<lparr>cy := 1\<rparr>) = message scenario2
   \<and> - 128 \<le> (97 :: int) \<and> (97 :: int) \<le> 255 \<and> 97 \<noteq> ESCAPE
   \<and> 97 \<noteq> CONTROL (int_of_char CHR ''q'')
   \<and> handleKeyPress 97 scenario2 = Continue scenario2"
proof -
  have h1: "handleKeyPress ARROW_DOWN scenario2 = Continue (scenario2\<lparr>cy := 1\<rparr>)"
    by (simp add: scenario2_def key_simps)
  have h2: "97 = DELETE \<or> (- 128 \<le> (97 :: int) \<and> (97 :: int) \<le> 255 \<and> 97 \<noteq> ESCAPE
      \<and> 97 \<noteq> CONTROL (int_of_char CHR ''q''))"
    by (simp add: Key_defs CONTROL_q)
  from handleKeyPress_frame [of ARROW_DOWN scenario2 "scenario2\<lparr>cy := 1\<rparr>" 97] h1 h2
  show ?thesis by (simp add: Key_defs CONTROL_q)
qed

text \<open>
  Claim C4. On the terminal of 10 rows and 20 columns with the three-line document,
  \<open>ARROW_DOWN\<close> moves the cursor down one row at a time; the press that brings it to
  the last text row (the eighth) scrolls already, so that \<open>lineOffset\<close> is 1 after
  eight presses and not 0.
\<close>

theorem arrow_down_eighth_press_scrolls:
  "startup scenarioEnv = Inr scenarioProcess \<and> state scenarioProcess = scenario2
   \<and> handleKeys (replicate 8 ARROW_DOWN) scenario2 = Continue (scenario2\<lparr>cy := 8, lineOffset := 1\<rparr>)
   \<and> lineOffset (scenario2\<lparr>cy := 8, lineOffset := 1\<rparr>) \<noteq> 0"
  by (simp add: startup_scenario state_scenarioProcess)
     (simp add: numeral_eq_Suc scenario2_def key_simps)

text \<open>
  Claim C4, as amended. The first seven presses take \<open>cy\<close> from 0 to 7 with
  \<open>lineOffset\<close> 0; the eighth takes \<open>cy\<close> to 8 and \<open>lineOffset\<close> to 1; the ninth
  keeps \<open>cy\<close> at 8 and takes \<open>lineOffset\<close> to 2, so that the top line shown is the
  third line of the document.
\<close>

theorem arrow_down_nine_times:
  "startup scenarioEnv = Inr scenarioProcess \<and> state scenarioProcess = scenario2
   \<and> handleKeys (replicate 1 ARROW_DOWN) scenario2 = Continue (scenario2\<lparr>cy := 1\<rparr>)
   \<and> handleKeys (replicate 2 ARROW_DOWN) scenario2 = Continue (scenario2\<lparr>cy := 2\<rparr>)
   \<and> handleKeys (replicate 3 ARROW_DOWN) scenario2 = Continue (scenario2\<lparr>cy := 3\<rparr>)
   \<and> handleKeys (replicate 4 ARROW_DOWN) scenario2 = Continue (scenario2\<lparr>cy := 4\<rparr>)
   \<and> handleKeys (replicate 5 ARROW_DOWN) scenario2 = Continue (scenario2\<lparr>cy := 5\<rparr>)
   \<and> handleKeys (replicate 6 ARROW_DOWN) scenario2 = Continue (scenario2\<lparr>cy := 6\<rparr>)
   \<and> handleKeys (replicate 7 ARROW_DOWN) scenario2 = Continue (scenario2\<lparr>cy := 7\<rparr>)
   \<and> handleKeys (replicate 8 ARROW_DOWN) scenario2 = Continue (scenario2\<lparr>cy := 8, lineOffset := 1\<rparr>)
   \<and> handleKeys (replicate 9 ARROW_DOWN) scenario2 = Continue (scenario2\<lparr>cy := 8, lineOffset := 2\<rparr>)
   \<and> lines scenario2 ! nat (lineOffset (scenario2\<lparr>cy := 8, lineOffset := 2\<rparr>)) = ''gamma''"
  by (simp add: startup_scenario state_scenarioProcess)
     (simp add: numeral_eq_Suc scenario2_def key_simps)

subsection \<open>Back buffer\<close>

text \<open>
  What the guard does for a buffer whose capacity is an \<^verbatim>\<open>int\<close>: an append succeeds
  exactly when \<open>length + n < capacity\<close> and then copies all \<open>n\<close> bytes, and it is fatal
  whenever \<open>capacity \<le> length + n \<le> 2 ^ 31 - 1\<close>.
\<close>

lemma bufferLength_sum:
  assumes "0 \<le> n" and "bufferLength bb + n \<le> 2147483647"
  shows "int32 (bufferLength bb + n) = bufferLength bb + n"
  using assms by (intro int32_id) (simp add: intRange_def bufferLength_def)

lemma backBufferAppend_Inr:
  assumes "intRange (capacity bb)"
  shows "backBufferAppend bytes n bb = Inr bb1 \<longleftrightarrow>
     bufferLength bb + n < capacity bb \<and> 0 \<le> n \<and> n \<le> int (length bytes)
     \<and> bb1 = bb\<lparr>data := data bb @ take (nat n) bytes\<rparr>"
proof (cases "0 \<le> n \<and> bufferLength bb + n \<le> capacity bb")
  case True
  then have "int32 (bufferLength bb + n) = bufferLength bb + n"
    using assms by (intro bufferLength_sum) (simp_all add: intRange_def)
  with True show ?thesis by (auto simp: backBufferAppend_def)
next
  case False
  then show ?thesis by (auto simp: backBufferAppend_def)
qed

lemma backBufferAppend_Die:
  assumes "0 \<le> n" and "bufferLength bb + n \<le> 2147483647"
  shows "backBufferAppend bytes n bb = Inl (Die s) \<longleftrightarrow>
     capacity bb \<le> bufferLength bb + n \<and> s = ''back buffer capacity exceeded''"
  using bufferLength_sum [OF assms] by (auto simp: backBufferAppend_def)

lemma backBufferAppend_bound:
  assumes "intRange (capacity bb)" and "backBufferAppend bytes n bb = Inr bb1"
  shows "bufferLength bb1 = bufferLength bb + n \<and> bufferLength bb1 < capacity bb1"
  using assms(2) unfolding backBufferAppend_Inr [OF assms(1)]
  by (auto simp: bufferLength_def)

subsection \<open>The viewport invariant\<close>

text \<open>
  In a state that satisfies the invariant, every sum and difference that
  \<^verbatim>\<open>handleKeyPress\<close> computes is within the range of \<^verbatim>\<open>int\<close>, if \<open>lineCount + rows\<close> and
  \<open>columns\<close> are: nothing wraps around, and the clamps keep the invariant.
\<close>

lemma handleKeyPress_in_range:
  assumes "viewport st" and "intRange (lineCount st + rows st)" and "intRange (columns st)"
  shows "intRange (cx st - 1) \<and> intRange (cx st + 1) \<and> intRange (columns st - 1)
       \<and> intRange (cy st - 1) \<and> intRange (cy st + 1) \<and> intRange (rows st - 1)
       \<and> intRange (lineOffset st - 1) \<and> intRange (lineOffset st + 1)
       \<and> intRange (lineOffset st - rows st) \<and> intRange (lineOffset st + rows st)"
  using assms by (auto simp: viewport_def intRange_def)

lemma handleKeyPress_viewport:
  assumes "viewport st" and "intRange (lineCount st + rows st)" and "intRange (columns st)"
      and "handleKeyPress c st = Continue st1"
  shows "viewport st1"
proof -
  note r = handleKeyPress_in_range [OF assms(1-3)]
  have eqs: "int32 (cx st - 1) = cx st - 1" "int32 (cx st + 1) = cx st + 1"
    "int32 (columns st - 1) = columns st - 1" "int32 (cy st - 1) = cy st - 1"
    "int32 (cy st + 1) = cy st + 1" "int32 (rows st - 1) = rows st - 1"
    "int32 (lineOffset st - 1) = lineOffset st - 1" "int32 (lineOffset st + 1) = lineOffset st + 1"
    "int32 (lineOffset st - rows st) = lineOffset st - rows st"
    "int32 (lineOffset st + rows st) = lineOffset st + rows st"
    using r by (simp_all add: int32_id)
  from assms(4) have "st1 \<in> {st\<lparr>cx := max_int 0 (cx st - 1)\<rparr>,
      st\<lparr>cx := min_int (columns st - 1) (cx st + 1)\<rparr>,
      st\<lparr>cy := max_int 0 (cy st - 1)\<rparr>,
      st\<lparr>cy := 0, lineOffset := max_int (lineOffset st - 1) 0\<rparr>,
      st\<lparr>cy := min_int (rows st - 1) (cy st + 1)\<rparr>,
      st\<lparr>cy := rows st - 1, lineOffset := min_int (lineOffset st + 1) (lineCount st)\<rparr>,
      st\<lparr>lineOffset := max_int (lineOffset st - rows st) 0\<rparr>,
      st\<lparr>lineOffset := min_int (lineOffset st + rows st) (lineCount st)\<rparr>,
      st\<lparr>cx := 0\<rparr>, st\<lparr>cx := columns st - 1\<rparr>, st}"
    by (simp add: handleKeyPress_def Let_def eqs split: if_splits)
  then show ?thesis
    using assms(1) by (auto simp: viewport_def min_int_def max_int_def)
qed

text \<open>
  Without the bound the sum of \<^verbatim>\<open>PAGE_DOWN\<close> wraps around: with \<open>2 ^ 31 - 1\<close> lines, nine
  text rows and the offset \<open>2 ^ 31 - 8\<close>, the new offset is negative.
\<close>

lemma handleKeyPress_wraps:
  assumes "rows st = 9" and "lineCount st = 2147483647" and "lineOffset st = 2147483640"
  shows "handleKeyPress PAGE_DOWN st = Continue (st\<lparr>lineOffset := - 2147483647\<rparr>)"
  using assms by (simp add: key_simps)

lemma drawStatus_state:
  assumes "drawStatus now st bb = Inr (st1, bb1)"
  shows "st1 = st \<or> st1 = st\<lparr>message := None, messageTime := 0\<rparr>"
  using assms
  by (auto simp: drawStatus_def andThen_def Let_def split: sum.splits if_splits option.splits prod.splits)

lemma editorDrawLines_state:
  assumes "editorDrawLines now st bb = Inr (st1, bb1)"
  shows "st1 = st \<or> st1 = st\<lparr>message := None, messageTime := 0\<rparr>"
  using assms drawStatus_state
  by (auto simp: editorDrawLines_def andThen_def split: sum.splits)

lemma editorDrawLines_viewport:
  assumes "viewport st" and "editorDrawLines now st bb = Inr (st1, bb1)"
  shows "viewport st1"
  using editorDrawLines_state [OF assms(2)] assms(1) by (auto simp: viewport_def)

lemma tcsetattr_state [simp]: "state (tcsetattr m p) = state p" "pending (tcsetattr m p) = pending p"
  by (simp_all add: tcsetattr_def split: option.splits)

lemma terminalRawMode_state [simp]: "state (terminalRawMode p) = state p"
  "pending (terminalRawMode p) = pending p"
  by (simp_all add: terminalRawMode_def Let_def split: option.splits)

lemma terminalProbeSize_fields:
  "cx (state (terminalProbeSize p)) = cx (state p)"
  "cy (state (terminalProbeSize p)) = cy (state p)"
  "lines (state (terminalProbeSize p)) = lines (state p)"
  "lineCount (state (terminalProbeSize p)) = lineCount (state p)"
  "lineOffset (state (terminalProbeSize p)) = lineOffset (state p)"
  by (simp_all add: terminalProbeSize_def terminalReadCursorPosition_def terminalCursorOut_def
      write_stdout_def Let_def split: prod.splits)

lemma terminalGetSize_fields:
  "cx (state (terminalGetSize ws p)) = cx (state p)"
  "cy (state (terminalGetSize ws p)) = cy (state p)"
  "lines (state (terminalGetSize ws p)) = lines (state p)"
  "lineCount (state (terminalGetSize ws p)) = lineCount (state p)"
  "lineOffset (state (terminalGetSize ws p)) = lineOffset (state p)"
  by (simp_all add: terminalGetSize_def terminalProbeSize_fields split: option.splits prod.splits)

lemma terminalProbeSize_size:
  "pending p1 = pending p \<Longrightarrow> rows (state p1) = rows (state p) \<Longrightarrow> columns (state p1) = columns (state p)
   \<Longrightarrow> rows (state (terminalProbeSize p1)) = rows (state (terminalProbeSize p))
     \<and> columns (state (terminalProbeSize p1)) = columns (state (terminalProbeSize p))"
  by (simp add: terminalProbeSize_def terminalReadCursorPosition_def terminalCursorOut_def
      write_stdout_def Let_def split: prod.splits)

lemma terminalGetSize_size:
  "pending p1 = pending p \<Longrightarrow> rows (state p1) = rows (state p) \<Longrightarrow> columns (state p1) = columns (state p)
   \<Longrightarrow> rows (state (terminalGetSize ws p1)) = rows (state (terminalGetSize ws p))
     \<and> columns (state (terminalGetSize ws p1)) = columns (state (terminalGetSize ws p))"
  using terminalProbeSize_size [of p1 p]
  by (simp add: terminalGetSize_def split: option.splits prod.splits)

text \<open>The size that is observed is within the range of \<^verbatim>\<open>int\<close>.\<close>

lemma scanInt_range: "scanInt s = Some (r, s1) \<Longrightarrow> intRange r"
  by (auto simp: scanInt_def Let_def intRange_int32 split: if_splits)

lemma sscanfSize_range:
  assumes "intRange (fst rc)" and "intRange (snd rc)"
  shows "intRange (fst (sscanfSize buffer rc)) \<and> intRange (snd (sscanfSize buffer rc))"
  using assms
  by (auto simp: sscanfSize_def dest: scanInt_range split: list.splits option.splits if_splits)

lemma terminalProbeSize_range:
  assumes "intRange (rows (state p))" and "intRange (columns (state p))"
  shows "intRange (rows (state (terminalProbeSize p))) \<and> intRange (columns (state (terminalProbeSize p)))"
proof -
  let ?p1 = "terminalReadCursorPosition (terminalCursorOut p)"
  have p1: "state ?p1 = state p"
    by (simp add: terminalReadCursorPosition_def terminalCursorOut_def write_stdout_def)
  obtain buffer rest where b: "readReply [] (pending ?p1) = (buffer, rest)"
    by (cases "readReply [] (pending ?p1)")
  from sscanfSize_range [of "(rows (state p), columns (state p))" buffer] assms
  show ?thesis
    by (auto simp: terminalProbeSize_def Let_def b p1 split: prod.splits)
qed

lemma observedSize_range:
  "intRange (fst (observedSize env)) \<and> intRange (snd (observedSize env))"
proof -
  let ?p = "terminalRawMode (startProcess env)"
  have "state ?p = state (startProcess env)" by simp
  then have z: "intRange (rows (state ?p))" "intRange (columns (state ?p))"
    by (simp_all add: startProcess_def intRange_def)
  from terminalProbeSize_range [OF z] show ?thesis
    by (simp add: observedSize_def terminalGetSize_def Let_def intRange_uint
        split: option.splits prod.splits)
qed

lemma editorInit_state:
  "state (editorInit (winsize env) (terminalRawMode (startProcess env))) =
     \<lparr>rows = int32 (fst (observedSize env) - 1), columns = snd (observedSize env), cx = 0, cy = 0,
      lines = [], lineCount = 0, lineOffset = 0, filename = None, message = None, messageTime = 0\<rparr>"
proof -
  let ?p = "terminalRawMode (startProcess env)"
  let ?p1 = "?p\<lparr>state := (state ?p)\<lparr>cx := 0, cy := 0, lines := [], lineCount := 0, lineOffset := 0\<rparr>\<rparr>"
  have sz: "rows (state (terminalGetSize (winsize env) ?p1)) = fst (observedSize env)
      \<and> columns (state (terminalGetSize (winsize env) ?p1)) = snd (observedSize env)"
    using terminalGetSize_size [of ?p1 ?p "winsize env"] by (simp add: observedSize_def Let_def)
  show ?thesis
    using sz
    by (intro EditorState.equality; simp add: editorInit_def Let_def terminalGetSize_fields)
qed

text \<open>Loading the lines of a file: every line is added and counted.\<close>

lemma editorOpenFile_fold:
  "fold (\<lambda>buffer s. s\<lparr>lines := lines s @ [stripLine buffer], lineCount := int32 (lineCount s + 1)\<rparr>) ls st
   = st\<lparr>lines := lines st @ map stripLine ls, lineCount := int32 (lineCount st + int (length ls))\<rparr>"
   if "intRange (lineCount st)"
  using that
proof (induction ls arbitrary: st)
  case Nil
  then show ?case by (simp add: int32_id)
next
  case (Cons l ls)
  let ?st = "st\<lparr>lines := lines st @ [stripLine l], lineCount := int32 (lineCount st + 1)\<rparr>"
  have "intRange (lineCount ?st)" by (simp add: intRange_int32)
  note ih = Cons.IH [OF this]
  have "int32 (int32 (lineCount st + 1) + int (length ls)) = int32 (lineCount st + 1 + int (length ls))"
    by (rule int32_add)
  also have "lineCount st + 1 + int (length ls) = lineCount st + int (length (l # ls))" by simp
  finally have c: "int32 (int32 (lineCount st + 1) + int (length ls))
      = int32 (lineCount st + int (length (l # ls)))" .
  have "fold (\<lambda>buffer s. s\<lparr>lines := lines s @ [stripLine buffer], lineCount := int32 (lineCount s + 1)\<rparr>)
          (l # ls) st
      = ?st\<lparr>lines := lines ?st @ map stripLine ls, lineCount := int32 (lineCount ?st + int (length ls))\<rparr>"
    using ih by simp
  also have "\<dots> = st\<lparr>lines := lines st @ map stripLine (l # ls),
      lineCount := int32 (int32 (lineCount st + 1) + int (length ls))\<rparr>"
    by simp
  finally show ?case unfolding c .
qed

lemma startup_state:
  assumes "startup env = Inr p"
  shows "rows (state p) = int32 (fst (observedSize env) - 1)"
    and "columns (state p) = snd (observedSize env)"
    and "cx (state p) = 0" and "cy (state p) = 0" and "lineOffset (state p) = 0"
    and "lineCount (state p) = int32 (int (length (lines (state p))))"
  using assms
  by (auto simp: startup_def Let_def editorInit_state editorOpenFile_def editorOpenFile_fold
      intRange_def int32_id
      backBufferInit_def terminalClearScreen_def write_stdout_def editorSetStatusMessage_def
      split: list.splits sum.splits fatal.splits option.splits)

lemma reachable_invariant:
  assumes "reachable st0 st" and "viewport st0"
      and "intRange (lineCount st0 + rows st0)" and "intRange (columns st0)"
  shows "viewport st \<and> rows st = rows st0 \<and> columns st = columns st0 \<and> lineCount st = lineCount st0
    \<and> lines st = lines st0"
  using assms
proof (induction rule: reachable.induct)
  case start
  then show ?case by simp
next
  case (frame st now bb st1 bb1)
  then show ?case
    using editorDrawLines_state [OF frame.hyps(2)] by (auto simp: viewport_def)
next
  case (key st c st1)
  from handleKeyPress_viewport_only [OF key.hyps(2)]
  have "rows st1 = rows st \<and> columns st1 = columns st \<and> lineCount st1 = lineCount st \<and> lines st1 = lines st"
    by (metis EditorState.select_convs EditorState.surjective EditorState.update_convs)
  moreover from key have "viewport st" "intRange (lineCount st + rows st)" "intRange (columns st)"
    by simp_all
  from handleKeyPress_viewport [OF this key.hyps(2)] have "viewport st1" .
  ultimately show ?case using key by simp
qed

text \<open>
  Claim C1, as amended. If the terminal size observed at startup has at least two
  rows and at least one column, and the number of lines of the document and the
  number of rows together do not exceed \<open>2 ^ 31\<close> (so that no sum of the loader or of
  the key handler leaves the range of \<^verbatim>\<open>int\<close>), then every editor state that the loop of \<^verbatim>\<open>main\<close>
  reaches from startup, for any sequence of keys, satisfies \<open>0 \<le> cx < columns\<close>,
  \<open>0 \<le> cy < rows - 1\<close> and \<open>0 \<le> lineOffset \<le> lineCount\<close>, where \<open>rows\<close> and \<open>columns\<close>
  are the observed size (\<^verbatim>\<open>editorInit\<close> keeps \<open>rows - 1\<close> in \<^verbatim>\<open>state.rows\<close>).
\<close>

theorem viewport_invariant:
  assumes "observedSize env = (R, C)" and "2 \<le> R" and "1 \<le> C"
      and "startup env = Inr p" and "int (length (lines (state p))) + R \<le> 2147483648"
      and "reachable (state p) st"
  shows "0 \<le> cx st \<and> cx st < C \<and> 0 \<le> cy st \<and> cy st < R - 1
    \<and> 0 \<le> lineOffset st \<and> lineOffset st \<le> lineCount st"
proof -
  note s = startup_state [OF assms(4)]
  have range: "intRange R" "intRange C"
    using observedSize_range [of env] assms(1) by simp_all
  have "int32 (R - 1) = R - 1"
    using range(1) assms(2) by (intro int32_id) (simp add: intRange_def)
  with s(1) assms(1) have rows: "rows (state p) = R - 1" by simp
  have "int32 (int (length (lines (state p)))) = int (length (lines (state p)))"
    using assms(2,5) by (intro int32_id) (simp add: intRange_def)
  with s(6) have n: "lineCount (state p) = int (length (lines (state p)))" by simp
  have "viewport (state p)"
    using s(2-5) n rows assms(1-3) by (simp add: viewport_def)
  moreover have "intRange (lineCount (state p) + rows (state p))"
    using n rows assms(2,5) by (simp add: intRange_def)
  moreover have "intRange (columns (state p))"
    using s(2) assms(1) range(2) by simp
  ultimately have "viewport st \<and> rows st = rows (state p) \<and> columns st = columns (state p)
      \<and> lineCount st = lineCount (state p) \<and> lines st = lines (state p)"
    by (rule reachable_invariant [OF assms(6)])
  with rows s(2) assms(1) show ?thesis by (simp add: viewport_def)
qed

lemma observedSize_ioctl:
  "winsize env = Some (r, c) \<Longrightarrow> 0 < c \<Longrightarrow> observedSize env = (uint r, uint c)"
  by (simp add: observedSize_def terminalGetSize_def Let_def)

theorem viewport_invariant_witness:
  "observedSize scenarioEnv = (10, 20) \<and> (2 :: int) \<le> 10 \<and> (1 :: int) \<le> 20
   \<and> startup scenarioEnv = Inr scenarioProcess
   \<and> int (length (lines (state scenarioProcess))) + 10 \<le> 2147483648
   \<and> reachable (state scenarioProcess) (scenario2\<lparr>cy := 1\<rparr>)
   \<and> 0 \<le> cx (scenario2\<lparr>cy := 1\<rparr>) \<and> cx (scenario2\<lparr>cy := 1\<rparr>) < 20
   \<and> 0 \<le> cy (scenario2\<lparr>cy := 1\<rparr>) \<and> cy (scenario2\<lparr>cy := 1\<rparr>) < 10 - 1
   \<and> 0 \<le> lineOffset (scenario2\<lparr>cy := 1\<rparr>)
   \<and> lineOffset (scenario2\<lparr>cy := 1\<rparr>) \<le> lineCount (scenario2\<lparr>cy := 1\<rparr>)"
proof -
  have size: "observedSize scenarioEnv = (10, 20)"
    using observedSize_ioctl [of scenarioEnv 10 20] by (simp add: scenarioEnv_def)
  have count: "int (length (lines (state scenarioProcess))) + 10 \<le> 2147483648"
    by (simp add: state_scenarioProcess scenario2_def)
  have down: "handleKeyPress ARROW_DOWN (state scenarioProcess) = Continue (scenario2\<lparr>cy := 1\<rparr>)"
    by (simp add: state_scenarioProcess scenario2_def key_simps)
  have reach: "reachable (state scenarioProcess) (scenario2\<lparr>cy := 1\<rparr>)"
    by (rule reachable.key [OF reachable.start down])
  from viewport_invariant [OF size _ _ startup_scenario count reach] size startup_scenario count reach
  show ?thesis by simp
qed

text \<open>
  Claim C1. On a terminal of one row the state with which \<^verbatim>\<open>main\<close> enters its loop
  has \<open>cy = 0\<close> and \<open>rows - 1 = 0\<close>: the invariant \<open>cy < rows - 1\<close> does not hold
  for it.
\<close>

theorem viewport_fails_on_one_row:
  "observedSize oneRowEnv = (1, 20)
   \<and> map_sum id state (startup oneRowEnv) = Inr (scenario2\<lparr>rows := 0\<rparr>)
   \<and> reachable (scenario2\<lparr>rows := 0\<rparr>) (scenario2\<lparr>rows := 0\<rparr>)
   \<and> \<not> cy (scenario2\<lparr>rows := 0\<rparr>) < 1 - 1"
proof -
  have "observedSize oneRowEnv = (1, 20)"
    using observedSize_ioctl [of oneRowEnv 1 20] by (simp add: oneRowEnv_def scenarioEnv_def)
  moreover have "map_sum id state (startup oneRowEnv) = Inr (scenario2\<lparr>rows := 0\<rparr>)"
    by (simp add: oneRowEnv_def scenarioEnv_def scenario2_def scenarioTerminal_def startup_simps)
  moreover have "\<not> cy (scenario2\<lparr>rows := 0\<rparr>) < 1 - 1"
    by (simp add: scenario2_def)
  ultimately show ?thesis using reachable.start by simp
qed

subsection \<open>The key decoder\<close>

lemma int_of_char_ESC: "int_of_char (CHR 0x1B) = ESCAPE"
  by (simp add: int_of_char_def ESCAPE_def)

lemma readSequence_two:
  "\<exists>sq. readSequence 0 stale (Some a # Some b # rest) = (sq, drop 1 rest) \<and> sq 0 = a \<and> sq (Suc 0) = b"
proof (cases rest)
  case Nil
  then show ?thesis
    by (simp add: readSequence.simps [of 0] readSequence.simps [of "Suc 0"]
        readSequence.simps [of "Suc (Suc 0)"])
next
  case (Cons r rest1)
  then show ?thesis
    by (cases r)
       (simp_all add: readSequence.simps [of 0] readSequence.simps [of "Suc 0"]
        readSequence.simps [of "Suc (Suc 0)"] readSequence.simps [of "Suc (Suc (Suc 0))"])
qed

lemma readKey_two:
  "\<exists>sq. readKey stale (Some (CHR 0x1B) # Some a # Some b # rest) = Some (decodeSequence sq, drop 1 rest)
     \<and> sq 0 = a \<and> sq (Suc 0) = b"
  using readSequence_two [of stale a b rest]
  by (auto simp: readKey_def int_of_char_ESC)

lemma decodeSequence_table:
  "(row, tok) \<in> set escapeTable \<Longrightarrow> fallsUnder (sq 0) (sq (Suc 0)) row \<Longrightarrow> decodeSequence sq = tok"
  by (auto simp: escapeTable_def decodeSequence_def)

text \<open>
  Claim C5, as amended. For every row of the table, the last one included, two bytes
  that fall under the row yield the token of the row, whatever follows them: the
  bytes of one of the fifteen sequences yield its token, and any other two bytes yield
  \<open>ESCAPE\<close>. \<open>readKey\<close> always tries three reads after the byte \<^verbatim>\<open>0x1b\<close>: beyond the
  two bytes it consumes the result of one more read, the next byte if one is pending.
  So \<^verbatim>\<open>0x1b [ A\<close> followed by a read that times out yields \<open>ARROW_UP\<close> and exactly
  three bytes are consumed, and \<^verbatim>\<open>0x1b [ 5 ~\<close> yields \<open>PAGE_UP\<close>, four bytes are consumed
  and the later input is left.
\<close>

theorem readKey_table:
  "(\<forall>(row, tok) \<in> set escapeTable.
      fallsUnder a b row \<longrightarrow>
      readKey stale (Some (CHR 0x1B) # Some a # Some b # rest) = Some (tok, drop 1 rest))
   \<and> readKey stale (Some (CHR 0x1B) # Some CHR ''['' # Some CHR ''A'' # None # rest) = Some (ARROW_UP, rest)
   \<and> readKey stale (Some (CHR 0x1B) # Some CHR ''['' # Some CHR ''5'' # Some CHR ''~'' # rest) = Some (PAGE_UP, rest)"
proof -
  have table: "readKey stale (Some (CHR 0x1B) # Some x # Some y # more) = Some (tok, drop 1 more)"
    if "(row, tok) \<in> set escapeTable" and "fallsUnder x y row" for x y row tok more
    using readKey_two [of stale x y more] decodeSequence_table [OF that(1)] that(2) by auto
  have "(Bytes CHR ''['' CHR ''A'', ARROW_UP) \<in> set escapeTable"
    and "(Bytes CHR ''['' CHR ''5'', PAGE_UP) \<in> set escapeTable"
    by (simp_all add: escapeTable_def)
  from table [where x = "CHR ''[''" and y = "CHR ''A''" and more = "None # rest", OF this(1)]
    table [where x = "CHR ''[''" and y = "CHR ''5''" and more = "Some CHR ''~'' # rest", OF this(2)]
    table [where x = a and y = b and more = rest]
  show ?thesis by auto
qed

theorem readKey_table_witness:
  "(Bytes CHR ''['' CHR ''B'', ARROW_DOWN) \<in> set escapeTable
   \<and> fallsUnder CHR ''['' CHR ''B'' (Bytes CHR ''['' CHR ''B'')
   \<and> readKey (\<lambda>i. CHR 0x00) [Some (CHR 0x1B), Some CHR ''['', Some CHR ''B'', Some CHR ''x'', Some CHR ''y'']
       = Some (ARROW_DOWN, [Some CHR ''y''])
   \<and> (AnythingElse, ESCAPE) \<in> set escapeTable
   \<and> fallsUnder CHR ''x'' CHR ''y'' AnythingElse
   \<and> readKey (\<lambda>i. CHR 0x00) [Some (CHR 0x1B), Some CHR ''x'', Some CHR ''y'', Some CHR ''z'']
       = Some (ESCAPE, [])"
proof -
  have h: "(Bytes CHR ''['' CHR ''B'', ARROW_DOWN) \<in> set escapeTable"
    "(AnythingElse, ESCAPE) \<in> set escapeTable"
    by (simp_all add: escapeTable_def)
  have f: "fallsUnder CHR ''x'' CHR ''y'' AnythingElse"
    by (simp add: escapeTable_def)
  from readKey_table [of "CHR ''[''" "CHR ''B''" "\<lambda>i. CHR 0x00" "[Some CHR ''x'', Some CHR ''y'']"]
    readKey_table [of "CHR ''x''" "CHR ''y''" "\<lambda>i. CHR 0x00" "[Some CHR ''z'']"] h f
  show ?thesis by auto
qed

text \<open>
  Claim C5. With a further byte pending after \<^verbatim>\<open>0x1b [ A\<close>, \<open>readKey\<close> yields
  \<open>ARROW_UP\<close> but consumes that byte as well: it is not left in the queue.
\<close>

theorem readKey_swallows_pending_byte:
  "(Bytes CHR ''['' CHR ''A'', ARROW_UP) \<in> set escapeTable
   \<and> readKey (\<lambda>i. CHR 0x00) [Some (CHR 0x1B), Some CHR ''['', Some CHR ''A'', Some CHR ''x'']
       = Some (ARROW_UP, [])
   \<and> Some (ARROW_UP, []) \<noteq> Some (ARROW_UP, [Some CHR ''x''])"
  by (simp add: escapeTable_def readKey_def int_of_char_ESC decodeSequence_def
      readSequence.simps [of 0] readSequence.simps [of "Suc 0"]
      readSequence.simps [of "Suc (Suc 0)"] readSequence.simps [of "Suc (Suc (Suc 0))"])

text \<open>
  Fewer than two bytes after the byte \<^verbatim>\<open>0x1b\<close>. The array \<^verbatim>\<open>sequence\<close> is not
  initialised, and a read that times out stores nothing: when no byte follows, the
  token is decoded from what the array held before the call, and when one byte
  follows, from that byte and the second element of the array as it was. The source
  does not say what the array holds then; that is a matter of where the compiler puts
  the array and of what was there before.
\<close>

lemma readKey_escape_alone_decodes_stale:
  "readKey stale (Some (CHR 0x1B) # None # rest) = Some (decodeSequence stale, rest)"
  by (simp add: readKey_def int_of_char_ESC readSequence.simps [of 0])

lemma readKey_escape_one_byte_decodes_stale:
  "readKey stale (Some (CHR 0x1B) # Some a # None # rest)
     = Some (decodeSequence (stale(0 := a)), rest)"
  by (simp add: readKey_def int_of_char_ESC readSequence.simps [of 0] readSequence.simps [of "Suc 0"])

text \<open>
  If the first element of the array is neither \<^verbatim>\<open>[\<close> nor \<^verbatim>\<open>O\<close>, the byte \<^verbatim>\<open>0x1b\<close>
  alone yields \<open>ESCAPE\<close>; if the array holds the bytes \<^verbatim>\<open>[ A\<close>, it yields \<open>ARROW_UP\<close>.
\<close>

lemma readKey_escape_alone:
  "stale 0 \<noteq> CHR ''['' \<Longrightarrow> stale 0 \<noteq> CHR ''O'' \<Longrightarrow>
   readKey stale (Some (CHR 0x1B) # None # rest) = Some (ESCAPE, rest)"
  by (simp add: readKey_escape_alone_decodes_stale decodeSequence_def)

lemma readKey_escape_alone_stale:
  "stale 0 = CHR ''['' \<Longrightarrow> stale 1 = CHR ''A'' \<Longrightarrow>
   readKey stale (Some (CHR 0x1B) # None # rest) = Some (ARROW_UP, rest)"
  by (simp add: readKey_escape_alone_decodes_stale decodeSequence_def)

subsection \<open>The renderer\<close>

lemma appendBytes_simps [simp]:
  "bufferLength (appendBytes bb xs) = bufferLength bb + int (length xs)"
  "capacity (appendBytes bb xs) = capacity bb"
  "appendBytes (appendBytes bb xs) ys = appendBytes bb (xs @ ys)"
  "appendBytes bb [] = bb"
  by (simp_all add: appendBytes_def bufferLength_def)

lemma length_ESC [simp]: "length ESC = 1"
  by (simp add: ESC_def)

text \<open>
  An append for which the buffer has room: the bytes are added. The same for a text
  row, for the text rows from \<open>y\<close> on, for the padding of the status row, for the
  status row and for the whole frame.
\<close>

lemma backBufferAppend_fits:
  assumes "0 \<le> n" and "n \<le> int (length bytes)"
      and "bufferLength bb + n < capacity bb" and "intRange (capacity bb)"
  shows "backBufferAppend bytes n bb = Inr (appendBytes bb (take (nat n) bytes))"
proof -
  have "int32 (bufferLength bb + n) = bufferLength bb + n"
    using assms by (intro bufferLength_sum) (simp_all add: intRange_def)
  with assms show ?thesis by (simp add: backBufferAppend_def appendBytes_def)
qed

lemma backBufferAppend_all:
  assumes "bufferLength bb + int (length bytes) < capacity bb" and "intRange (capacity bb)"
  shows "backBufferAppend bytes (int (length bytes)) bb = Inr (appendBytes bb bytes)"
  using backBufferAppend_fits [of "int (length bytes)" bytes bb] assms by simp

lemma drawLine_fits:
  assumes "0 \<le> y" and "0 \<le> lineOffset st" and "lineCount st = int (length (lines st))"
      and "1 \<le> columns st" and "intRange (columns st)" and "intRange (lineOffset st + y)"
      and "bufferLength bb + int (length (textRow st y)) < capacity bb"
      and "intRange (capacity bb)"
  shows "drawLine y st bb = Inr (appendBytes bb (textRow st y))"
proof -
  let ?n = "lineOffset st + y"
  define t where "t = rowText st y"
  define b1 where "b1 = appendBytes bb (ESC @ ''[K'')"
  define b2 where "b2 = appendBytes b1 t"
  have room: "bufferLength bb + (5 + int (length t)) < capacity bb"
    using assms(7) by (simp add: textRow_def t_def)
  have b1: "bufferLength b1 = bufferLength bb + 3" "capacity b1 = capacity bb"
    by (simp_all add: b1_def)
  have b2: "bufferLength b2 = bufferLength bb + 3 + int (length t)" "capacity b2 = capacity bb"
    by (simp_all add: b2_def b1)
  have n: "int32 ?n = ?n" using assms(6) by (rule int32_id)
  have c: "int32 (columns st - 1) = columns st - 1"
    using assms(4,5) by (intro int32_id) (simp add: intRange_def)
  have a1: "backBufferAppend (ESC @ ''[K'') 3 bb = Inr b1"
    unfolding b1_def using backBufferAppend_all [of bb "ESC @ ''[K''"] room assms(8) by simp
  have a2: "(if ?n < lineCount st then
              (if 0 \<le> ?n \<and> ?n < int (length (lines st)) then
                 backBufferAppend (lines st ! nat ?n)
                   (min_int (int (length (lines st ! nat ?n))) (columns st - 1)) b1
               else Inl Undefined)
            else backBufferAppend ''~'' 1 b1) = Inr b2"
  proof (cases "?n < lineCount st")
    case True
    let ?line = "lines st ! nat ?n"
    let ?k = "min_int (int (length ?line)) (columns st - 1)"
    have k: "0 \<le> ?k" "?k \<le> int (length ?line)"
      using assms(4) by (simp_all add: min_int_def)
    have rt: "t = take (nat ?k) ?line"
      using True by (simp add: t_def rowText_def min_int_def)
    have lt: "int (length t) = ?k" unfolding rt using k by simp
    have "bufferLength b1 + ?k < capacity b1" using room b1 lt by simp
    from backBufferAppend_fits [OF k this] assms(8) b1(2)
    have "backBufferAppend ?line ?k b1 = Inr b2" by (simp add: b2_def rt)
    with True assms(1-3) show ?thesis by simp
  next
    case False
    then have rt: "t = ''~''" by (simp add: t_def rowText_def)
    from backBufferAppend_all [of b1 "''~''"] room b1 assms(8) rt
    have "backBufferAppend ''~'' 1 b1 = Inr b2" by (simp add: b2_def)
    with False show ?thesis by simp
  qed
  have a3: "backBufferAppend [CHR 0x0D, CHR 0x0A] 2 b2 = Inr (appendBytes b2 [CHR 0x0D, CHR 0x0A])"
    using backBufferAppend_all [of b2 "[CHR 0x0D, CHR 0x0A]"] room b2 assms(8) by simp
  have "drawLine y st bb = Inr (appendBytes b2 [CHR 0x0D, CHR 0x0A])"
    unfolding drawLine_def Let_def n c by (simp only: a1 a2 a3 andThen_simps)
  then show ?thesis by (simp add: b2_def b1_def textRow_def t_def)
qed

lemma rowsFrom_step:
  "0 \<le> y \<Longrightarrow> y < rows st \<Longrightarrow> rowsFrom y st = textRow st y @ rowsFrom (y + 1) st"
proof -
  assume a: "0 \<le> y" "y < rows st"
  then have "nat y < nat (rows st)" by simp
  then have "[nat y..<nat (rows st)] = nat y # [Suc (nat y)..<nat (rows st)]"
    by (rule upt_conv_Cons)
  moreover have "Suc (nat y) = nat (y + 1)" using a by simp
  ultimately show ?thesis using a by (simp add: rowsFrom_def)
qed

lemma rowsFrom_end: "rows st \<le> y \<Longrightarrow> rowsFrom y st = []"
  by (simp add: rowsFrom_def)

lemma drawLines_fits:
  "0 \<le> y \<Longrightarrow> 0 \<le> lineOffset st \<Longrightarrow> lineCount st = int (length (lines st)) \<Longrightarrow> 1 \<le> columns st
   \<Longrightarrow> intRange (columns st) \<Longrightarrow> intRange (lineOffset st + rows st)
   \<Longrightarrow> bufferLength bb + int (length (rowsFrom y st)) < capacity bb \<Longrightarrow> intRange (capacity bb)
   \<Longrightarrow> drawLines y st bb = Inr (appendBytes bb (rowsFrom y st))"
proof (induction y st bb rule: drawLines.induct)
  case (1 y st bb)
  show ?case
  proof (cases "y < rows st")
    case False
    then show ?thesis by (subst drawLines.simps) (simp add: rowsFrom_end)
  next
    case True
    note step = rowsFrom_step [OF "1.prems"(1) True]
    have "intRange (lineOffset st + y)"
      using "1.prems"(1,2,6) True by (simp add: intRange_def)
    moreover have "bufferLength bb + int (length (textRow st y)) < capacity bb"
      using "1.prems"(7) by (simp add: step)
    ultimately have dl: "drawLine y st bb = Inr (appendBytes bb (textRow st y))"
      using "1.prems" by (intro drawLine_fits)
    have "drawLines (y + 1) st (appendBytes bb (textRow st y)) =
        Inr (appendBytes (appendBytes bb (textRow st y)) (rowsFrom (y + 1) st))"
      using "1.prems" by (intro "1.IH" [OF True dl]) (simp_all add: step)
    then show ?thesis
      using True dl by (subst drawLines.simps) (simp add: step)
  qed
qed

lemma padStatus_fits:
  "len \<le> columns st \<Longrightarrow> bufferLength bb + (columns st - len) < capacity bb
   \<Longrightarrow> intRange (capacity bb)
   \<Longrightarrow> padStatus len st bb = Inr (appendBytes bb (replicate (nat (columns st - len)) CHR '' ''))"
proof (induction len st bb rule: padStatus.induct)
  case (1 len st bb)
  show ?case
  proof (cases "len < columns st")
    case False
    with "1.prems" show ?thesis by (subst padStatus.simps) simp
  next
    case True
    have a: "backBufferAppend '' '' 1 bb = Inr (appendBytes bb '' '')"
      using backBufferAppend_all [of bb "'' ''"] "1.prems" True by simp
    have r: "nat (columns st - len) = Suc (nat (columns st - (len + 1)))"
      using True by simp
    have "padStatus (len + 1) st (appendBytes bb '' '') =
        Inr (appendBytes (appendBytes bb '' '') (replicate (nat (columns st - (len + 1))) CHR '' ''))"
      using True "1.prems" by (intro "1.IH" [OF True a]) simp_all
    then show ?thesis
      using True a by (subst padStatus.simps) (simp add: r)
  qed
qed

lemma length_statusBody: "1 \<le> columns st \<Longrightarrow> int (length (statusBody st)) = columns st"
  by (auto simp: statusBody_def split: option.splits)

lemma padStatus_columns:
  "columns st1 = columns st \<Longrightarrow> padStatus len st1 bb = padStatus len st bb"
proof (induction len st bb rule: padStatus.induct)
  case (1 len st bb)
  show ?case
  proof (cases "len < columns st")
    case False
    with "1.prems" show ?thesis
      by (simp add: padStatus.simps [of len st] padStatus.simps [of len st1])
  next
    case True
    show ?thesis
    proof (cases "backBufferAppend '' '' 1 bb")
      case (Inl e)
      with True "1.prems" show ?thesis
        by (simp add: padStatus.simps [of len st] padStatus.simps [of len st1])
    next
      case (Inr bb1)
      from "1.IH" [OF True Inr "1.prems"] True "1.prems" Inr show ?thesis
        by (simp add: padStatus.simps [of len st] padStatus.simps [of len st1])
    qed
  qed
qed

lemma drawStatus_fits:
  assumes "1 \<le> columns st"
      and "bufferLength bb + int (length (statusRow st)) < capacity bb"
      and "intRange (capacity bb)"
  shows "drawStatus now st bb = Inr (expireMessage now st, appendBytes bb (statusRow st))"
proof -
  have len: "int (length (statusBody st)) = columns st"
    by (rule length_statusBody [OF assms(1)])
  have room: "bufferLength bb + columns st + 7 < capacity bb"
    using assms(2) len by (simp add: statusRow_def)
  define b1 where "b1 = appendBytes bb (ESC @ ''[7m'')"
  have b1: "bufferLength b1 = bufferLength bb + 4" "capacity b1 = capacity bb"
    by (simp_all add: b1_def)
  have e1: "backBufferAppend (ESC @ ''[7m'') 4 bb = Inr b1"
    unfolding b1_def
    using backBufferAppend_all [of bb "ESC @ ''[7m''"] room assms(1,3) by simp
  have e4: "backBufferAppend (ESC @ ''[m'') 3 b3 = Inr (appendBytes b3 (ESC @ ''[m''))"
    if "bufferLength b3 = bufferLength bb + 4 + columns st" and "capacity b3 = capacity bb" for b3
    using backBufferAppend_all [of b3 "ESC @ ''[m''"] room assms(3) that by simp
  show ?thesis
  proof (cases "message st")
    case None
    let ?s = "statusText st"
    have ex: "expireMessage now st = st" using None by (simp add: expireMessage_def)
    show ?thesis
    proof (cases "int (length ?s) < columns st")
      case True
      define pad where "pad = replicate (nat (columns st - int (length ?s))) CHR '' ''"
      define b2 where "b2 = appendBytes b1 ?s"
      define b3 where "b3 = appendBytes b2 pad"
      have body: "statusBody st = ?s @ pad"
        using None True by (simp add: statusBody_def pad_def nat_diff_distrib)
      have lp: "int (length pad) = columns st - int (length ?s)"
        using True by (simp add: pad_def)
      have b2: "bufferLength b2 = bufferLength bb + 4 + int (length ?s)" "capacity b2 = capacity bb"
        by (simp_all add: b2_def b1)
      have b3: "bufferLength b3 = bufferLength bb + 4 + columns st" "capacity b3 = capacity bb"
        by (simp_all add: b3_def b2 lp)
      have m: "min_int (int (length ?s)) (columns st) = int (length ?s)"
        using True by (simp add: min_int_def)
      have tk: "take (nat (columns st - 1)) ?s = ?s" using True by simp
      have e2: "backBufferAppend (?s @ [CHR 0x00]) (int (length ?s)) b1 = Inr b2"
        unfolding b2_def
        using backBufferAppend_fits [of "int (length ?s)" "?s @ [CHR 0x00]" b1] b1 room True assms(3)
        by simp
      have e3: "padStatus (int (length ?s)) st b2 = Inr b3"
        unfolding b3_def pad_def
        using padStatus_fits [of "int (length ?s)" st b2] b2 room True assms(3) by simp
      have "drawStatus now st bb = Inr (st, appendBytes b3 (ESC @ ''[m''))"
        using assms(1) None
        by (simp add: drawStatus_def snprintf_def Let_def tk m e1 e2 e3 e4 [OF b3])
      moreover have "appendBytes b3 (ESC @ ''[m'') = appendBytes bb (statusRow st)"
        by (simp add: b3_def b2_def b1_def statusRow_def body)
      ultimately show ?thesis by (simp add: ex)
    next
      case False
      define b where "b = take (nat (columns st - 1)) ?s @ [CHR 0x00]"
      define b2 where "b2 = appendBytes b1 b"
      have body: "statusBody st = b"
        using None False by (simp add: statusBody_def b_def)
      have sn: "snprintf (columns st) ?s = (b, int (length ?s))"
        using assms(1) by (simp add: snprintf_def b_def)
      have m: "min_int (int (length ?s)) (columns st) = columns st"
        using False by (simp add: min_int_def)
      have l: "int (length b) = columns st" using False assms(1) by (simp add: b_def)
      then have "nat (columns st) = length b" by linarith
      then have tk: "take (nat (columns st)) b = b" by simp
      have b2: "bufferLength b2 = bufferLength bb + 4 + columns st" "capacity b2 = capacity bb"
        by (simp_all add: b2_def b1 l)
      have e2: "backBufferAppend b (columns st) b1 = Inr b2"
        unfolding b2_def
        using backBufferAppend_fits [of "columns st" b b1] b1 room l tk assms(1,3) by simp
      have e3: "padStatus (columns st) st b2 = Inr b2"
        by (subst padStatus.simps) simp
      have "drawStatus now st bb = Inr (st, appendBytes b2 (ESC @ ''[m''))"
        using assms(1) None
        by (simp add: drawStatus_def sn Let_def m e1 e2 e3 e4 [OF b2])
      moreover have "appendBytes b2 (ESC @ ''[m'') = appendBytes bb (statusRow st)"
        by (simp add: b2_def b1_def statusRow_def body)
      ultimately show ?thesis by (simp add: ex)
    qed
  next
    case (Some msg)
    define k where "k = min_int (int (length msg)) (columns st)"
    define t where "t = take (nat k) msg"
    define pad where "pad = replicate (nat (columns st - k)) CHR '' ''"
    define b2 where "b2 = appendBytes b1 t"
    define b3 where "b3 = appendBytes b2 pad"
    have k: "0 \<le> k" "k \<le> int (length msg)" "k \<le> columns st"
      using assms(1) by (simp_all add: min_int_def k_def)
    have body: "statusBody st = t @ pad"
      using Some assms(1) by (auto simp: statusBody_def min_int_def nat_diff_distrib k_def t_def pad_def)
    have lk: "int (length t) = k"
      using k by (simp add: t_def)
    have lp: "int (length pad) = columns st - k"
      using k by (simp add: pad_def)
    have b2: "bufferLength b2 = bufferLength bb + 4 + k" "capacity b2 = capacity bb"
      by (simp_all add: b2_def b1 lk)
    have b3: "bufferLength b3 = bufferLength bb + 4 + columns st" "capacity b3 = capacity bb"
      by (simp_all add: b3_def b2 lp)
    have e2: "backBufferAppend msg k b1 = Inr b2"
      unfolding b2_def t_def
      using backBufferAppend_fits [OF k(1,2), of b1] b1 room k(3) assms(3) by simp
    have e3: "padStatus k st b2 = Inr b3"
      unfolding b3_def pad_def
      using padStatus_fits [OF k(3), of b2] b2 room k assms(3) by simp
    have p1: "padStatus k (st\<lparr>message := None, messageTime := 0\<rparr>) b2 = padStatus k st b2"
      by (rule padStatus_columns) simp
    have "drawStatus now st bb = Inr (expireMessage now st, appendBytes b3 (ESC @ ''[m''))"
      using assms(1) Some
      by (simp add: drawStatus_def Let_def expireMessage_def k_def [symmetric] e1 e2 e3 p1 e4 [OF b3])
    moreover have "appendBytes b3 (ESC @ ''[m'') = appendBytes bb (statusRow st)"
      by (simp add: b3_def b2_def b1_def statusRow_def body)
    ultimately show ?thesis by simp
  qed
qed

lemma textRows_rowsFrom: "textRows st = rowsFrom 0 st"
  by (simp add: textRows_def rowsFrom_def)

lemma editorDrawLines_fits:
  assumes "viewport st" and "lineCount st = int (length (lines st))"
      and "intRange (lineOffset st + rows st)"
      and "bufferLength bb + int (length (textRows st @ statusRow st)) < capacity bb"
      and "intRange (capacity bb)"
  shows "editorDrawLines now st bb =
     Inr (expireMessage now st, appendBytes bb (textRows st @ statusRow st))"
proof -
  have v: "1 \<le> rows st" "1 \<le> columns st" "0 \<le> lineOffset st"
    using assms(1) by (simp_all add: viewport_def)
  have sl: "int (length (statusRow st)) = columns st + 7"
    using length_statusBody [OF v(2)] by (simp add: statusRow_def)
  have "0 \<le> bufferLength bb" by (simp add: bufferLength_def)
  then have c: "intRange (columns st)"
    using v(2) sl assms(4,5) by (simp add: intRange_def)
  have "drawLines 0 st bb = Inr (appendBytes bb (rowsFrom 0 st))"
    using v c assms by (intro drawLines_fits) (simp_all add: textRows_rowsFrom)
  then have dl: "drawLines 0 st bb = Inr (appendBytes bb (textRows st))"
    by (simp add: textRows_rowsFrom)
  have ds: "drawStatus now st (appendBytes bb (textRows st)) =
      Inr (expireMessage now st, appendBytes (appendBytes bb (textRows st)) (statusRow st))"
    using v(2) assms(4,5) by (intro drawStatus_fits) simp_all
  show ?thesis by (simp add: editorDrawLines_def dl ds)
qed

text \<open>
  The frame of a terminal of at least two columns has fewer than \<open>columns * rows * 8\<close>
  bytes: it fits into the cleared buffer of the capacity chosen at startup, if that
  product is within the range of \<^verbatim>\<open>int\<close>.
\<close>

lemma length_concat_le:
  "(\<And>i. i < n \<Longrightarrow> length (f i) \<le> k) \<Longrightarrow> length (concat (map f [0..<n])) \<le> n * k"
proof (induction n)
  case 0
  then show ?case by simp
next
  case (Suc n)
  have "length (concat (map f [0..<n])) \<le> n * k" using Suc by simp
  moreover have "length (f n) \<le> k" using Suc.prems by simp
  ultimately show ?case by simp
qed

lemma length_textRow: "2 \<le> columns st \<Longrightarrow> int (length (textRow st y)) \<le> columns st + 4"
  by (auto simp: textRow_def rowText_def)

lemma length_textRows:
  assumes "2 \<le> columns st" and "0 \<le> rows st"
  shows "int (length (textRows st)) \<le> rows st * (columns st + 4)"
proof -
  have "length (textRow st (int i)) \<le> nat (columns st + 4)" for i
    using length_textRow [OF assms(1), of "int i"] by linarith
  then have "length (textRows st) \<le> nat (rows st) * nat (columns st + 4)"
    unfolding textRows_def by (intro length_concat_le)
  then have "int (length (textRows st)) \<le> int (nat (rows st) * nat (columns st + 4))"
    by linarith
  also have "\<dots> = rows st * (columns st + 4)"
    using assms by simp
  finally show ?thesis .
qed

lemma startup_capacity_suffices:
  assumes "1 \<le> rows st" and "2 \<le> columns st"
  shows "int (length (textRows st @ statusRow st)) < columns st * rows st * 8"
proof -
  have s: "int (length (statusRow st)) = columns st + 7"
    using length_statusBody [of st] assms(2) by (simp add: statusRow_def)
  have t: "int (length (textRows st)) \<le> rows st * (columns st + 4)"
    using length_textRows [of st] assms by simp
  have "1 * (7 * columns st - 4) \<le> rows st * (7 * columns st - 4)"
    using assms by (intro mult_right_mono) simp_all
  then have "rows st * (columns st + 4) + columns st + 7 < columns st * rows st * 8"
    using assms(2) by (simp add: algebra_simps)
  with s t show ?thesis by simp
qed

lemma capacity_in_range:
  assumes "1 \<le> r" and "2 \<le> c" and "c * r * 8 \<le> 2147483647"
  shows "int32 (int32 (c * r) * 8) = c * r * 8"
proof -
  define x where "x = c * r"
  have "0 \<le> x" using assms(1,2) by (simp add: x_def)
  with assms(3) have "intRange x" "intRange (x * 8)" by (simp_all add: intRange_def x_def)
  then show ?thesis by (simp add: int32_id x_def [symmetric])
qed


lemma viewport_scenario2: "viewport scenario2"
  by (simp add: viewport_def scenario2_def)

lemma textRows_scenario2:
  "textRows scenario2 =
     ESC @ ''[Kalpha'' @ [CHR 0x0D, CHR 0x0A] @ ESC @ ''[Kbeta'' @ [CHR 0x0D, CHR 0x0A]
     @ ESC @ ''[Kgamma'' @ [CHR 0x0D, CHR 0x0A] @ ESC @ ''[K~'' @ [CHR 0x0D, CHR 0x0A]
     @ ESC @ ''[K~'' @ [CHR 0x0D, CHR 0x0A] @ ESC @ ''[K~'' @ [CHR 0x0D, CHR 0x0A]
     @ ESC @ ''[K~'' @ [CHR 0x0D, CHR 0x0A] @ ESC @ ''[K~'' @ [CHR 0x0D, CHR 0x0A]
     @ ESC @ ''[K~'' @ [CHR 0x0D, CHR 0x0A]"
  by (simp add: textRows_def textRow_def rowText_def scenario2_def upt_rec [of _ 9]  numeral_eq_Suc )

lemma statusRow_scenario2: "statusRow scenario2 = ESC @ ''[7mHELP: press CTRL+Q t'' @ ESC @ ''[m''"
  by (simp add: statusRow_def statusBody_def scenario2_def)

lemma frame_scenario2: "int (length (textRows scenario2)) + int (length (statusRow scenario2)) < 1440"
  by (simp add: textRows_scenario2 statusRow_scenario2)



lemma startup_narrowEnv:
  "map_sum id (\<lambda>p. (state p, backBufferClear (backBuffer p))) (startup narrowEnv)
     = Inr (narrowState, \<lparr>data = [], capacity = 32\<rparr>)"
  by (simp add: narrowEnv_def narrowState_def scenarioEnv_def scenarioTerminal_def
      backBufferClear_def startup_simps)

lemma frame_narrowState:
  "textRows narrowState @ statusRow narrowState =
     ESC @ ''[K~'' @ [CHR 0x0D, CHR 0x0A] @ ESC @ ''[K~'' @ [CHR 0x0D, CHR 0x0A]
     @ ESC @ ''[K~'' @ [CHR 0x0D, CHR 0x0A] @ ESC @ ''[K~'' @ [CHR 0x0D, CHR 0x0A]
     @ ESC @ ''[7mH'' @ ESC @ ''[m''"
  by (simp add: textRows_def textRow_def rowText_def statusRow_def statusBody_def narrowState_def
      upt_rec [of _ 4] numeral_eq_Suc)

text \<open>
  The first 29 bytes of that frame are appended: the text rows, the reverse video
  sequence and the status text.
\<close>

lemma drawLines_narrowState:
  "drawLines 0 narrowState \<lparr>data = [], capacity = 32\<rparr>
     = Inr \<lparr>data = textRows narrowState, capacity = 32\<rparr>"
proof -
  have "drawLines 0 narrowState \<lparr>data = [], capacity = 32\<rparr>
      = Inr (appendBytes \<lparr>data = [], capacity = 32\<rparr> (rowsFrom 0 narrowState))"
    by (rule drawLines_fits)
       (simp_all add: narrowState_def intRange_def bufferLength_def textRows_rowsFrom [symmetric],
        simp add: textRows_def textRow_def rowText_def upt_rec [of _ 4] numeral_eq_Suc)
  then show ?thesis by (simp add: appendBytes_def textRows_rowsFrom)
qed

text \<open>
  Claim C7. An append is to copy its bytes whenever \<open>length + n \<le> capacity\<close>. The
  guard of \<^verbatim>\<open>backBufferAppend\<close> is \<^verbatim>\<open>>=\<close>, so an append that fills the buffer exactly
  is fatal: with 5 bytes in a buffer of capacity 8, appending 3 bytes ends in
  \<^verbatim>\<open>die("back buffer capacity exceeded")\<close>. It happens in a run: on a terminal of five
  rows and one column the first frame has 32 bytes, the capacity of the buffer is 32,
  and the last append of the frame is fatal. (The lemmas \<open>backBufferAppend_Inr\<close>,
  \<open>backBufferAppend_Die\<close> and \<open>backBufferAppend_bound\<close> say what the guard does in
  general.)
\<close>

theorem backBufferAppend_exact_fit_dies:
  "bufferLength \<lparr>data = ''12345'', capacity = 8\<rparr> + 3 = capacity \<lparr>data = ''12345'', capacity = 8\<rparr>
   \<and> backBufferAppend ''abc'' 3 \<lparr>data = ''12345'', capacity = 8\<rparr>
       = Inl (Die ''back buffer capacity exceeded'')
   \<and> map_sum id (\<lambda>p. (state p, backBufferClear (backBuffer p))) (startup narrowEnv)
       = Inr (narrowState, \<lparr>data = [], capacity = 32\<rparr>)
   \<and> int (length (textRows narrowState @ statusRow narrowState)) = 32
   \<and> editorDrawLines 0 narrowState \<lparr>data = [], capacity = 32\<rparr>
       = Inl (Die ''back buffer capacity exceeded'')"
proof -
  have len: "int (length (textRows narrowState @ statusRow narrowState)) = 32"
    by (simp add: frame_narrowState)
  have rows: "textRows narrowState =
      ESC @ ''[K~'' @ [CHR 0x0D, CHR 0x0A] @ ESC @ ''[K~'' @ [CHR 0x0D, CHR 0x0A]
      @ ESC @ ''[K~'' @ [CHR 0x0D, CHR 0x0A] @ ESC @ ''[K~'' @ [CHR 0x0D, CHR 0x0A]"
    by (simp add: textRows_def textRow_def rowText_def narrowState_def upt_rec [of _ 4] numeral_eq_Suc)
  have "drawStatus 0 narrowState \<lparr>data = textRows narrowState, capacity = 32\<rparr>
      = Inl (Die ''back buffer capacity exceeded'')"
    unfolding rows
    by (simp add: narrowState_def drawStatus_def padStatus.simps [of 1] backBufferAppend_def
        bufferLength_def min_int_def int32_def ESC_def Let_def)
  then have "editorDrawLines 0 narrowState \<lparr>data = [], capacity = 32\<rparr>
      = Inl (Die ''back buffer capacity exceeded'')"
    by (simp add: editorDrawLines_def drawLines_narrowState)
  with len startup_narrowEnv show ?thesis
    by (simp add: backBufferAppend_def bufferLength_def int32_def)
qed

text \<open>
  Claim C9. With 20 columns, the file \<^verbatim>\<open>fname\<close> of three lines and no status message,
  the status text has 37 characters. \<^verbatim>\<open>snprintf\<close> keeps 19 of them and a NUL byte in
  the array of 20 bytes, and the 20 bytes that are appended are those: the text of the
  status row ends in a NUL byte and is not the first 20 characters of the status text.
\<close>

theorem status_row_ends_in_NUL:
  "message (scenario2\<lparr>message := None\<rparr>) = None
   \<and> columns (scenario2\<lparr>message := None\<rparr>) = 20
   \<and> statusText (scenario2\<lparr>message := None\<rparr>) = ''fname - 3 lines    line: 0  column: 0''
   \<and> drawStatus 0 (scenario2\<lparr>message := None\<rparr>) \<lparr>data = [], capacity = 1440\<rparr> =
       Inr (scenario2\<lparr>message := None\<rparr>,
            \<lparr>data = ESC @ ''[7m'' @ ''fname - 3 lines    '' @ [CHR 0x00] @ ESC @ ''[m'',
             capacity = 1440\<rparr>)
   \<and> ''fname - 3 lines    '' @ [CHR 0x00] \<noteq> take 20 ''fname - 3 lines    line: 0  column: 0''"
proof -
  let ?st = "scenario2\<lparr>message := None\<rparr>"
  have t: "statusText ?st = ''fname - 3 lines    line: 0  column: 0''"
    by (simp add: statusText_def scenario2_def showInt_def digits.simps digit_def int32_def)
  have b: "statusBody ?st = ''fname - 3 lines    '' @ [CHR 0x00]"
    by (simp add: statusBody_def t) (simp add: scenario2_def)
  have c: "1 \<le> columns ?st" by (simp add: scenario2_def)
  have "drawStatus 0 ?st \<lparr>data = [], capacity = 1440\<rparr> =
       Inr (expireMessage 0 ?st, appendBytes \<lparr>data = [], capacity = 1440\<rparr> (statusRow ?st))"
    by (rule drawStatus_fits [OF c]) (simp_all add: statusRow_def b bufferLength_def intRange_def)
  then have "drawStatus 0 ?st \<lparr>data = [], capacity = 1440\<rparr> =
       Inr (?st, \<lparr>data = ESC @ ''[7m'' @ ''fname - 3 lines    '' @ [CHR 0x00] @ ESC @ ''[m'',
             capacity = 1440\<rparr>)"
    by (simp add: statusRow_def b appendBytes_def expireMessage_def)
  with t show ?thesis by (simp add: scenario2_def)
qed

subsection \<open>Exit paths\<close>

lemma restoredTty_cong:
  "tty q = tty p \<Longrightarrow> originalTerminalMode q = originalTerminalMode p \<Longrightarrow> restoredTty q = restoredTty p"
  by (simp add: restoredTty_def split: option.splits)

lemma terminalReset_fields:
  "tty (terminalReset p) = restoredTty p"
  "originalTerminalMode (terminalReset p) = originalTerminalMode p"
  "stdout (terminalReset p) = stdout p" "stderr (terminalReset p) = stderr p"
  by (simp_all add: terminalReset_def tcsetattr_def restoredTty_def split: option.splits)

lemma backBufferDestroy_fields:
  "tty (backBufferDestroy p) = tty p"
  "originalTerminalMode (backBufferDestroy p) = originalTerminalMode p"
  "stdout (backBufferDestroy p) = stdout p" "stderr (backBufferDestroy p) = stderr p"
  by (simp_all add: backBufferDestroy_def)

lemma restoredTty_terminalReset: "restoredTty (terminalReset p) = restoredTty p"
  by (simp add: restoredTty_def terminalReset_def tcsetattr_def split: option.splits)

lemma fold_runHook_tty:
  "tty (fold runHook hs p) = (if TerminalReset \<in> set hs then restoredTty p else tty p)"
proof (induction hs arbitrary: p)
  case Nil
  then show ?case by simp
next
  case (Cons h hs)
  show ?case
  proof (cases h)
    case TerminalReset
    then show ?thesis
      by (simp add: Cons.IH terminalReset_fields restoredTty_terminalReset)
  next
    case BackBufferDestroy
    have "restoredTty (backBufferDestroy p) = restoredTty p"
      by (rule restoredTty_cong) (simp_all add: backBufferDestroy_fields)
    with BackBufferDestroy show ?thesis
      by (simp add: Cons.IH backBufferDestroy_fields)
  qed
qed

lemma runHook_output:
  "stdout (runHook h p) = stdout p" "stderr (runHook h p) = stderr p"
  by (cases h; simp add: terminalReset_fields backBufferDestroy_fields)+

lemma fold_runHook_output:
  "stdout (fold runHook hs p) = stdout p" "stderr (fold runHook hs p) = stderr p"
  by (induction hs arbitrary: p) (simp_all add: runHook_output)

lemma exit_tty:
  "TerminalReset \<in> set (hooks p) \<Longrightarrow> exit status p = Exited code q \<Longrightarrow> tty q = restoredTty p"
  by (auto simp: exit_def fold_runHook_tty)

lemma die_tty:
  assumes "TerminalReset \<in> set (hooks p)" and "die s p = Exited code q"
  shows "tty q = restoredTty p"
proof -
  let ?p1 = "write_stdout (ESC @ ''[2J'' @ ESC @ ''[H'') p"
  let ?p2 = "?p1\<lparr>stderr := stderr ?p1 @ [s]\<rparr>"
  have "exit 1 ?p2 = Exited code q" using assms(2) by (simp add: die_def Let_def)
  moreover have "TerminalReset \<in> set (hooks ?p2)" using assms(1) by (simp add: write_stdout_def)
  ultimately have "tty q = restoredTty ?p2" by (rule exit_tty [rotated])
  also have "\<dots> = restoredTty p" by (rule restoredTty_cong) (simp_all add: write_stdout_def)
  finally show ?thesis .
qed

lemma die_Exited: "\<exists>q. die s p = Exited 1 q"
  by (simp add: die_def exit_def Let_def)

lemma mainLoop_restores:
  "TerminalReset \<in> set (hooks p) \<Longrightarrow> mainLoop env n p = Exited code q \<Longrightarrow> tty q = restoredTty p"
proof (induction env n p rule: mainLoop.induct)
  case (1 env n p)
  let ?p1 = "terminalCursorHome (terminalCursorHide p)"
  let ?p2 = "?p1\<lparr>backBuffer := backBufferClear (backBuffer ?p1)\<rparr>"
  have p2: "hooks ?p2 = hooks p" "tty ?p2 = tty p" "originalTerminalMode ?p2 = originalTerminalMode p"
    by (simp_all add: terminalCursorHome_def terminalCursorHide_def write_stdout_def)
  show ?case
  proof (cases "editorDrawLines (frameTime env n) (state ?p2) (backBuffer ?p2)")
    case (Inl e)
    show ?thesis
    proof (cases e)
      case (Die s)
      with Inl "1.prems"(2) have "die s ?p2 = Exited code q"
        by (subst (asm) mainLoop.simps) (simp add: Let_def)
      from die_tty [OF _ this] "1.prems"(1) p2 restoredTty_cong [OF p2(2,3)] show ?thesis by simp
    next
      case Undefined
      with Inl "1.prems"(2) show ?thesis
        by (subst (asm) mainLoop.simps) (simp add: Let_def)
    qed
  next
    case (Inr r)
    obtain st bb where r: "r = (st, bb)" by (cases r)
    let ?p3 = "backBufferRender (?p2\<lparr>state := st, backBuffer := bb\<rparr>)"
    let ?p4 = "terminalCursorShow (terminalSetCursorPosition (cx st) (cy st) ?p3)"
    have p4: "hooks ?p4 = hooks p" "tty ?p4 = tty p" "originalTerminalMode ?p4 = originalTerminalMode p"
      by (simp_all add: terminalCursorHome_def terminalCursorHide_def write_stdout_def
          backBufferRender_def terminalCursorShow_def terminalSetCursorPosition_def)
    show ?thesis
    proof (cases "readKey (stack env n) (pending ?p4)")
      case None
      with Inr r "1.prems"(2) show ?thesis
        by (subst (asm) mainLoop.simps) (simp add: Let_def)
    next
      case (Some kr)
      obtain c rest where kr: "kr = (c, rest)" by (cases kr)
      show ?thesis
      proof (cases "handleKeyPress c st")
        case Quit
        with Inr r Some kr "1.prems"(2)
        have "exit 0 (terminalClearScreen (?p4\<lparr>pending := rest\<rparr>)) = Exited code q"
          by (subst (asm) mainLoop.simps) (simp add: Let_def)
        let ?p5 = "terminalClearScreen (?p4\<lparr>pending := rest\<rparr>)"
        have p5: "hooks ?p5 = hooks p" "tty ?p5 = tty p" "originalTerminalMode ?p5 = originalTerminalMode p"
          using p4 by (simp_all add: terminalClearScreen_def write_stdout_def)
        from exit_tty [OF _ \<open>exit 0 ?p5 = Exited code q\<close>] "1.prems"(1) p5(1)
          restoredTty_cong [OF p5(2,3)] show ?thesis
          by simp
      next
        case (Continue st1)
        let ?p5 = "?p4\<lparr>pending := rest, state := st1\<rparr>"
        from Inr r Some kr Continue "1.prems"(2)
        have loop: "mainLoop env (n + 1) ?p5 = Exited code q"
          by (subst (asm) mainLoop.simps) (simp add: Let_def)
        have "tty q = restoredTty ?p5"
          using "1.prems"(1) p4
          by (intro "1.IH" [OF refl refl Inr r [symmetric] refl refl Some kr [symmetric] Continue _ loop]) simp
        also have "\<dots> = restoredTty p"
          using p4 by (intro restoredTty_cong) simp_all
        finally show ?thesis .
      qed
    qed
  qed
qed

lemma terminalRawMode_start:
  "hooks (terminalRawMode (startProcess env)) = [TerminalReset]"
  "restoredTty (terminalRawMode (startProcess env)) = terminal env"
  "stdout (terminalRawMode (startProcess env)) = []"
  "stderr (terminalRawMode (startProcess env)) = []"
  by (simp_all add: terminalRawMode_def startProcess_def tcsetattr_def restoredTty_def Let_def
      split: option.splits)

lemma terminalProbeSize_keeps:
  "hooks (terminalProbeSize p) = hooks p" "tty (terminalProbeSize p) = tty p"
  "originalTerminalMode (terminalProbeSize p) = originalTerminalMode p"
  "stderr (terminalProbeSize p) = stderr p"
  by (simp_all add: terminalProbeSize_def terminalReadCursorPosition_def terminalCursorOut_def
      write_stdout_def Let_def split: prod.splits)

lemma terminalGetSize_keeps:
  "hooks (terminalGetSize ws p) = hooks p" "tty (terminalGetSize ws p) = tty p"
  "originalTerminalMode (terminalGetSize ws p) = originalTerminalMode p"
  "stderr (terminalGetSize ws p) = stderr p"
  by (simp_all add: terminalGetSize_def terminalProbeSize_keeps split: option.splits prod.splits)

lemma editorInit_keeps:
  "hooks (editorInit ws p) = hooks p" "tty (editorInit ws p) = tty p"
  "originalTerminalMode (editorInit ws p) = originalTerminalMode p"
  "stderr (editorInit ws p) = stderr p"
  by (simp_all add: editorInit_def Let_def terminalGetSize_keeps)

lemma editorInit_start:
  "TerminalReset \<in> set (hooks (editorInit ws (terminalRawMode (startProcess env))))"
  "restoredTty (editorInit ws (terminalRawMode (startProcess env))) = terminal env"
  "stderr (editorInit ws (terminalRawMode (startProcess env))) = []"
proof -
  let ?p = "terminalRawMode (startProcess env)"
  show "TerminalReset \<in> set (hooks (editorInit ws ?p))"
    by (simp add: editorInit_keeps terminalRawMode_start)
  have "restoredTty (editorInit ws ?p) = restoredTty ?p"
    by (rule restoredTty_cong) (simp_all add: editorInit_keeps)
  then show "restoredTty (editorInit ws ?p) = terminal env"
    by (simp add: terminalRawMode_start)
  show "stderr (editorInit ws ?p) = []"
    by (simp add: editorInit_keeps terminalRawMode_start)
qed

lemma startup_Inr:
  assumes "startup env = Inr p"
  shows "TerminalReset \<in> set (hooks p)" and "restoredTty p = terminal env" and "stderr p = []"
    and "capacity (backBuffer p) = int32 (int32 (columns (state p) * rows (state p)) * 8)"
proof -
  let ?p2 = "editorInit (winsize env) (terminalRawMode (startProcess env))"
  from assms obtain st where
    p: "p = (terminalClearScreen (backBufferInit (int32 (int32 (columns st * rows st) * 8)) (?p2\<lparr>state := st\<rparr>)))
          \<lparr>state := editorSetStatusMessage ''HELP: press CTRL+Q to quit'' (startTime env) st\<rparr>"
    by (auto simp: startup_def Let_def terminalClearScreen_def write_stdout_def backBufferInit_def
        split: sum.splits fatal.splits)
  show "TerminalReset \<in> set (hooks p)"
    using editorInit_start(1) [of "winsize env" env]
    by (simp add: p terminalClearScreen_def write_stdout_def backBufferInit_def)
  have "restoredTty p = restoredTty ?p2"
    by (rule restoredTty_cong)
       (simp_all add: p terminalClearScreen_def write_stdout_def backBufferInit_def)
  then show "restoredTty p = terminal env" by (simp add: editorInit_start)
  show "stderr p = []"
    by (simp add: p terminalClearScreen_def write_stdout_def backBufferInit_def editorInit_start)
  show "capacity (backBuffer p) = int32 (int32 (columns (state p) * rows (state p)) * 8)"
    by (simp add: p terminalClearScreen_def write_stdout_def backBufferInit_def editorSetStatusMessage_def)
qed

lemma startup_Inl:
  assumes "startup env = Inl (Exited code q)"
  shows "tty q = terminal env"
proof -
  let ?p2 = "editorInit (winsize env) (terminalRawMode (startProcess env))"
  from assms obtain s where "die s ?p2 = Exited code q"
    by (auto simp: startup_def Let_def split: sum.splits fatal.splits)
  from die_tty [OF editorInit_start(1) this] show ?thesis
    by (simp add: editorInit_start)
qed

lemma exit_result:
  "\<exists>q. exit status p = Exited status q \<and> stdout q = stdout p \<and> stderr q = stderr p"
  by (simp add: exit_def fold_runHook_output)

lemma die_result:
  "\<exists>q. die s p = Exited 1 q \<and> stderr q = stderr p @ [s] \<and> stdout q = stdout p @ [clearScreen]"
  using exit_result [of 1 "(write_stdout clearScreen p)\<lparr>stderr := stderr p @ [s]\<rparr>"]
  by (auto simp: die_def Let_def write_stdout_def clearScreen_def)

lemma editorDrawLines_no_capacity:
  assumes "data bb = []" and "capacity bb \<le> 3"
  shows "editorDrawLines now st bb = Inl overflow"
proof (cases "0 < rows st")
  case True
  have "backBufferAppend (ESC @ ''[K'') 3 bb = Inl overflow"
    using assms by (simp add: backBufferAppend_def bufferLength_def overflow_def int32_def)
  then have "drawLine 0 st bb = Inl overflow"
    by (simp add: drawLine_def Let_def)
  with True have "drawLines 0 st bb = Inl overflow"
    by (subst drawLines.simps) simp
  then show ?thesis by (simp add: editorDrawLines_def)
next
  case False
  then have "drawLines 0 st bb = Inr bb"
    by (subst drawLines.simps) simp
  moreover have "backBufferAppend (ESC @ ''[7m'') 4 bb = Inl overflow"
    using assms by (simp add: backBufferAppend_def bufferLength_def overflow_def int32_def)
  then have "drawStatus now st bb = Inl overflow"
    by (simp add: drawStatus_def)
  ultimately show ?thesis by (simp add: editorDrawLines_def)
qed

lemma mainLoop_no_capacity:
  assumes "capacity (backBuffer p) \<le> 3"
  shows "\<exists>q. mainLoop env n p = Exited 1 q
           \<and> stderr q = stderr p @ [''back buffer capacity exceeded'']
           \<and> last (stdout q) = clearScreen"
proof -
  let ?p1 = "terminalCursorHome (terminalCursorHide p)"
  let ?p2 = "?p1\<lparr>backBuffer := backBufferClear (backBuffer ?p1)\<rparr>"
  have "editorDrawLines (frameTime env n) (state ?p2) (backBuffer ?p2) = Inl overflow"
    using assms
    by (intro editorDrawLines_no_capacity)
       (simp_all add: backBufferClear_def terminalCursorHome_def terminalCursorHide_def write_stdout_def)
  then have "mainLoop env n p = die ''back buffer capacity exceeded'' ?p2"
    by (subst mainLoop.simps) (simp add: Let_def overflow_def)
  moreover have "stderr ?p2 = stderr p"
    by (simp add: terminalCursorHome_def terminalCursorHide_def write_stdout_def)
  ultimately show ?thesis
    using die_result [of "''back buffer capacity exceeded''" ?p2] by auto
qed

lemma int_of_char_ctrl_q: "int_of_char (CHR 0x11) = 0x11"
  by (simp add: int_of_char_def)

lemma readKey_ctrl_q: "readKey stale (Some (CHR 0x11) # rest) = Some (0x11, rest)"
  by (simp add: readKey_def int_of_char_ctrl_q ESCAPE_def)

lemma handleKeyPress_ctrl_q: "handleKeyPress 0x11 st = Quit"
  by (simp add: handleKeyPress_def CONTROL_q)

lemma mainLoop_quit_step:
  assumes "editorDrawLines (frameTime env n) (state p) (backBufferClear (backBuffer p)) = Inr (st1, bb1)"
      and "pending p = Some (CHR 0x11) # rest"
  shows "\<exists>q. mainLoop env n p = Exited 0 q \<and> stderr q = stderr p"
  by (subst mainLoop.simps)
     (simp add: Let_def terminalCursorHome_def terminalCursorHide_def write_stdout_def
        backBufferRender_def terminalCursorShow_def terminalSetCursorPosition_def
        terminalClearScreen_def assms readKey_ctrl_q handleKeyPress_ctrl_q exit_def
        fold_runHook_output)

lemma mainLoop_quit:
  assumes "viewport (state p)" and "lineCount (state p) = int (length (lines (state p)))"
      and "intRange (lineOffset (state p) + rows (state p))"
      and "int (length (textRows (state p) @ statusRow (state p))) < capacity (backBuffer p)"
      and "intRange (capacity (backBuffer p))"
      and "pending p = Some (CHR 0x11) # rest"
  shows "\<exists>q. mainLoop env n p = Exited 0 q \<and> stderr q = stderr p"
proof -
  let ?st = "state p"
  let ?bb = "backBufferClear (backBuffer p)"
  have "bufferLength ?bb + int (length (textRows ?st @ statusRow ?st)) < capacity ?bb"
    and "intRange (capacity ?bb)"
    using assms(4,5) by (simp_all add: bufferLength_def backBufferClear_def)
  from editorDrawLines_fits [OF assms(1-3) this, of "frameTime env n"]
  have "editorDrawLines (frameTime env n) ?st ?bb
      = Inr (expireMessage (frameTime env n) ?st, appendBytes ?bb (textRows ?st @ statusRow ?st))" .
  from mainLoop_quit_step [OF this assms(6)] show ?thesis .
qed

lemma startup_open_fails:
  assumes "args env = name # rest" and "fopen env name = None"
  shows "startup env = Inl (die ''failed to open file''
           (editorInit (winsize env) (terminalRawMode (startProcess env))))"
  using assms by (simp add: startup_def editorOpenFile_def Let_def)

lemma main_open_fails:
  assumes "args env = name # rest" and "fopen env name = None"
  shows "\<exists>q. main env = Exited 1 q \<and> stderr q = [''failed to open file'']
           \<and> last (stdout q) = clearScreen"
  using die_result [of "''failed to open file''" "editorInit (winsize env) (terminalRawMode (startProcess env))"]
  by (auto simp: main_def startup_open_fails [OF assms] editorInit_start)

lemma startup_cases:
  "(\<exists>p. startup env = Inr p) \<or>
   (\<exists>s. startup env = Inl (die s (editorInit (winsize env) (terminalRawMode (startProcess env)))))"
  by (auto simp: startup_def Let_def editorOpenFile_def split: sum.splits fatal.splits list.splits option.splits)

lemma main_no_columns:
  assumes "snd (observedSize env) = 0"
  shows "\<exists>q s. main env = Exited 1 q \<and> stderr q = [s] \<and> last (stdout q) = clearScreen"
  using startup_cases [of env]
proof
  assume "\<exists>p. startup env = Inr p"
  then obtain p where p: "startup env = Inr p" by blast
  from startup_state(2) [OF p] assms startup_Inr(4) [OF p]
  have "capacity (backBuffer p) \<le> 3" by (simp add: int32_def)
  from mainLoop_no_capacity [OF this, of env 0] p startup_Inr(3) [OF p]
  show ?thesis by (auto simp: main_def)
next
  assume "\<exists>s. startup env = Inl (die s (editorInit (winsize env) (terminalRawMode (startProcess env))))"
  then obtain s where "startup env = Inl (die s (editorInit (winsize env) (terminalRawMode (startProcess env))))"
    by blast
  with die_result [of s "editorInit (winsize env) (terminalRawMode (startProcess env))"]
  show ?thesis by (auto simp: main_def editorInit_start)
qed



text \<open>
  Whenever the buffer gets a capacity of at most 3, the loop does not get past its
  first frame. That is so on a terminal of 4098 rows and 65535 columns: the product
  \<open>65535 * 4097 * 8\<close> wraps around to a negative capacity.
\<close>

lemma main_no_capacity:
  assumes "startup env = Inr p" and "capacity (backBuffer p) \<le> 3"
  shows "\<exists>q. main env = Exited 1 q \<and> stderr q = [''back buffer capacity exceeded'']
           \<and> last (stdout q) = clearScreen"
  using mainLoop_no_capacity [OF assms(2), of env 0] assms(1) startup_Inr(3) [OF assms(1)]
  by (auto simp: main_def)

lemma main_wideEnv:
  "\<exists>q. main wideEnv = Exited 1 q \<and> stderr q = [''back buffer capacity exceeded'']
        \<and> last (stdout q) = clearScreen"
proof -
  obtain p where p: "startup wideEnv = Inr p"
    by (simp add: startup_def wideEnv_def scenarioEnv_def Let_def)
  have "observedSize wideEnv = (4098, 65535)"
    using observedSize_ioctl [of wideEnv 4098 65535] by (simp add: wideEnv_def scenarioEnv_def)
  with startup_state(1,2) [OF p] startup_Inr(4) [OF p]
  have "capacity (backBuffer p) = - 2146992136" by (simp add: int32_def)
  then have "capacity (backBuffer p) \<le> 3" by simp
  from main_no_capacity [OF p this] show ?thesis .
qed

lemma startup_quitEnv: "startup quitEnv = Inr (scenarioProcess\<lparr>pending := [Some (CHR 0x11)]\<rparr>)"
  by (simp add: quitEnv_def scenarioEnv_def scenarioProcess_def scenario2_def scenarioTerminal_def
      startup_simps)

text \<open>
  Claim C2. However the process exits, by \<^verbatim>\<open>exit(0)\<close> after Escape or Ctrl-Q or by
  \<^verbatim>\<open>die\<close>, the attributes of the terminal after the exit are those it had when the
  program started: \<^verbatim>\<open>terminalReset\<close> is registered with \<^verbatim>\<open>atexit\<close> before anything can
  exit, and reinstalls the attributes that \<^verbatim>\<open>terminalRawMode\<close> saved.
\<close>

theorem terminal_restored_on_exit:
  assumes "main env = Exited code q"
  shows "tty q = terminal env"
proof (cases "startup env")
  case (Inl outcome)
  with assms have "startup env = Inl (Exited code q)" by (simp add: main_def)
  then show ?thesis by (rule startup_Inl)
next
  case (Inr p)
  with assms have "mainLoop env 0 p = Exited code q" by (simp add: main_def)
  from mainLoop_restores [OF startup_Inr(1) [OF Inr] this] startup_Inr(2) [OF Inr]
  show ?thesis by simp
qed

theorem terminal_restored_on_exit_witness:
  "(\<exists>q. main quitEnv = Exited 0 q \<and> tty q = Some scenarioTerminal)
   \<and> (\<exists>q. main missingFileEnv = Exited 1 q \<and> tty q = Some scenarioTerminal)"
proof -
  have "\<exists>q. mainLoop quitEnv 0 (scenarioProcess\<lparr>pending := [Some (CHR 0x11)]\<rparr>) = Exited 0 q
      \<and> stderr q = stderr (scenarioProcess\<lparr>pending := [Some (CHR 0x11)]\<rparr>)"
    by (rule mainLoop_quit [where rest = "[]"])
       (simp_all add: scenarioProcess_def viewport_scenario2 frame_scenario2 intRange_def,
        simp_all add: scenario2_def)
  then obtain q where q: "main quitEnv = Exited 0 q"
    by (auto simp: main_def startup_quitEnv)
  have "args missingFileEnv = ''missing'' # [] \<and> fopen missingFileEnv ''missing'' = None"
    by (simp add: missingFileEnv_def scenarioEnv_def)
  then obtain q1 where q1: "main missingFileEnv = Exited 1 q1"
    using main_open_fails [of missingFileEnv "''missing''" "[]"] by blast
  from terminal_restored_on_exit [OF q] terminal_restored_on_exit [OF q1] q q1
  show ?thesis by (simp add: quitEnv_def missingFileEnv_def scenarioEnv_def)
qed

subsection \<open>Setup failures\<close>

text \<open>
  Claim C8, as amended. Two setup failures end in \<^verbatim>\<open>die\<close>: the process writes the
  clear-screen-and-home sequence, prints a diagnostic and exits with status 1. One is
  a file that cannot be opened. The other is a window size that cannot be determined:
  \<^verbatim>\<open>terminalGetSize\<close> reports no failure, but it leaves \<open>columns = 0\<close>, the buffer gets
  the capacity 0 and the first frame overflows it.
\<close>

theorem setup_failures_fatal:
  "(args env = name # rest \<and> fopen env name = None \<longrightarrow>
      (\<exists>q. main env = Exited 1 q \<and> stderr q = [''failed to open file'']
            \<and> last (stdout q) = ESC @ ''[2J'' @ ESC @ ''[H''))
   \<and> (snd (observedSize env') = 0 \<longrightarrow>
      (\<exists>q s. main env' = Exited 1 q \<and> stderr q = [s]
            \<and> last (stdout q) = ESC @ ''[2J'' @ ESC @ ''[H''))"
  using main_open_fails [of env name rest] main_no_columns [of env']
  by (simp add: clearScreen_def)

lemma observedSize_noSizeEnv: "observedSize noSizeEnv = (0, 0)"
  by (simp add: observedSize_def noSizeEnv_def scenarioEnv_def terminalGetSize_def terminalProbeSize_def
      terminalRawMode_def startProcess_def tcsetattr_def terminalReadCursorPosition_def
      terminalCursorOut_def write_stdout_def readReply.simps sscanfSize_def Let_def)

theorem setup_failures_fatal_witness:
  "args missingFileEnv = ''missing'' # [] \<and> fopen missingFileEnv ''missing'' = None
   \<and> (\<exists>q. main missingFileEnv = Exited 1 q \<and> stderr q = [''failed to open file'']
            \<and> last (stdout q) = ESC @ ''[2J'' @ ESC @ ''[H'')
   \<and> snd (observedSize noSizeEnv) = 0
   \<and> (\<exists>q s. main noSizeEnv = Exited 1 q \<and> stderr q = [s]
            \<and> last (stdout q) = ESC @ ''[2J'' @ ESC @ ''[H'')"
proof -
  have a: "args missingFileEnv = ''missing'' # [] \<and> fopen missingFileEnv ''missing'' = None"
    by (simp add: missingFileEnv_def scenarioEnv_def)
  have b: "snd (observedSize noSizeEnv) = 0"
    by (simp add: observedSize_noSizeEnv)
  from setup_failures_fatal [of missingFileEnv "''missing''" "[]" noSizeEnv] a b
  show ?thesis by simp
qed

lemma startup_noTerminalEnv:
  "startup noTerminalEnv =
     Inr (scenarioProcess\<lparr>tty := None, pending := [Some (CHR 0x11)],
            originalTerminalMode := \<lparr>c_iflag = {}, c_oflag = {}, c_cflag = {}, c_lflag = {},
                                      c_cc_VMIN = 0, c_cc_VTIME = 0\<rparr>\<rparr>)"
  by (simp add: noTerminalEnv_def scenarioEnv_def scenarioProcess_def scenario2_def startup_simps)

text \<open>
  Claim C8. When standard input is not a terminal the switch to raw mode fails:
  \<^verbatim>\<open>terminalRawMode\<close> does not look at the results of \<^verbatim>\<open>tcgetattr\<close> and \<^verbatim>\<open>tcsetattr\<close>,
  the program runs on, and on Ctrl-Q it exits with status 0 and without a diagnostic.
\<close>

theorem raw_mode_failure_not_fatal:
  "terminal noTerminalEnv = None
   \<and> tty (terminalRawMode (startProcess noTerminalEnv)) = None
   \<and> (\<exists>q. main noTerminalEnv = Exited 0 q \<and> stderr q = [])"
proof -
  let ?p = "scenarioProcess\<lparr>tty := None, pending := [Some (CHR 0x11)],
            originalTerminalMode := \<lparr>c_iflag = {}, c_oflag = {}, c_cflag = {}, c_lflag = {},
                                      c_cc_VMIN = 0, c_cc_VTIME = 0\<rparr>\<rparr>"
  have t: "terminal noTerminalEnv = None"
    by (simp add: noTerminalEnv_def)
  have r: "tty (terminalRawMode (startProcess noTerminalEnv)) = None"
    by (simp add: terminalRawMode_def startProcess_def tcsetattr_def Let_def t)
  have "\<exists>q. mainLoop noTerminalEnv 0 ?p = Exited 0 q \<and> stderr q = stderr ?p"
    by (rule mainLoop_quit [where rest = "[]"])
       (simp_all add: scenarioProcess_def viewport_scenario2 frame_scenario2 intRange_def,
        simp_all add: scenario2_def)
  then have "\<exists>q. main noTerminalEnv = Exited 0 q \<and> stderr q = []"
    by (simp add: main_def startup_noTerminalEnv) (simp add: scenarioProcess_def)
  with t r show ?thesis by simp
qed

subsection \<open>The loop and the reachable states\<close>

text \<open>
  The relation \<open>reachable\<close> covers the loop of \<^verbatim>\<open>main\<close>: the editor state in which a
  run of the loop ends, however it ends, is reachable from the one it starts in. So
  the invariant holds for it as well.
\<close>

lemma reachable_trans:
  assumes "reachable b c" and "reachable a b"
  shows "reachable a c"
  using assms by (induction rule: reachable.induct) (auto intro: reachable.intros)

lemma runHook_state: "state (runHook h p) = state p"
  by (cases h) (simp_all add: terminalReset_def tcsetattr_def backBufferDestroy_def split: option.splits)

lemma fold_runHook_state: "state (fold runHook hs p) = state p"
  by (induction hs arbitrary: p) (simp_all add: runHook_state)

lemma state_exit: "state (processOf (exit status p)) = state p"
  by (simp add: exit_def fold_runHook_state)

lemma state_die: "state (processOf (die s p)) = state p"
  by (simp add: die_def Let_def state_exit write_stdout_def)

lemma mainLoop_reachable:
  "reachable (state p) (state (processOf (mainLoop env n p)))"
proof (induction env n p rule: mainLoop.induct)
  case (1 env n p)
  let ?p1 = "terminalCursorHome (terminalCursorHide p)"
  let ?p2 = "?p1\<lparr>backBuffer := backBufferClear (backBuffer ?p1)\<rparr>"
  have p1: "state ?p1 = state p"
    by (simp add: terminalCursorHome_def terminalCursorHide_def write_stdout_def)
  then have p2: "state ?p2 = state p" by simp
  show ?case
  proof (cases "editorDrawLines (frameTime env n) (state ?p2) (backBuffer ?p2)")
    case (Inl e)
    then have "state (processOf (mainLoop env n p)) = state p"
      by (subst mainLoop.simps) (cases e; simp add: Let_def state_die p1)
    then show ?thesis by (simp add: reachable.start)
  next
    case (Inr r)
    obtain st bb where r: "r = (st, bb)" by (cases r)
    from Inr r p2 have frame: "reachable (state p) st"
      by (auto intro: reachable.frame [OF reachable.start])
    let ?p3 = "backBufferRender (?p2\<lparr>state := st, backBuffer := bb\<rparr>)"
    let ?p4 = "terminalCursorShow (terminalSetCursorPosition (cx st) (cy st) ?p3)"
    have p4: "state ?p4 = st"
      by (simp add: write_stdout_def backBufferRender_def terminalCursorShow_def
          terminalSetCursorPosition_def)
    show ?thesis
    proof (cases "readKey (stack env n) (pending ?p4)")
      case None
      with Inr r have "mainLoop env n p = Blocked ?p4"
        by (subst mainLoop.simps) (simp add: Let_def)
      with frame p4 show ?thesis by simp
    next
      case (Some kr)
      obtain c rest where kr: "kr = (c, rest)" by (cases kr)
      show ?thesis
      proof (cases "handleKeyPress c st")
        case Quit
        with Inr r Some kr
        have "mainLoop env n p = exit 0 (terminalClearScreen (?p4\<lparr>pending := rest\<rparr>))"
          by (subst mainLoop.simps) (simp add: Let_def)
        moreover have "state (terminalClearScreen (?p4\<lparr>pending := rest\<rparr>)) = st"
          using p4 by (simp add: terminalClearScreen_def write_stdout_def)
        ultimately show ?thesis using frame by (simp add: state_exit)
      next
        case (Continue st1)
        let ?p5 = "?p4\<lparr>pending := rest, state := st1\<rparr>"
        from Inr r Some kr Continue
        have loop: "mainLoop env n p = mainLoop env (n + 1) ?p5"
          by (subst mainLoop.simps) (simp add: Let_def)
        have "reachable (state ?p5) (state (processOf (mainLoop env (n + 1) ?p5)))"
          by (rule "1.IH" [OF refl refl Inr r [symmetric] refl refl Some kr [symmetric] Continue])
        moreover have "reachable (state p) (state ?p5)"
          using reachable.key [OF frame Continue] by simp
        ultimately show ?thesis
          unfolding loop by (rule reachable_trans)
      qed
    qed
  qed
qed

lemma main_final_state:
  assumes "startup env = Inr p" and "viewport (state p)"
      and "intRange (lineCount (state p) + rows (state p))" and "intRange (columns (state p))"
  shows "viewport (state (processOf (main env)))"
  using reachable_invariant [OF mainLoop_reachable [of p env 0] assms(2-4)] assms(1)
  by (simp add: main_def)

end
